theory Spec2Isabelle
  imports Complex_Main "HOL-Library.Sublist" "HOL-Library.List_Lexorder" "HOL-Library.Multiset"
begin

section \<open>Strings and constants (constants.js)\<close>

text \<open>
  A JavaScript string is a sequence of UTF-16 code units; a code unit is modelled as a
  natural number. ASCII text is written through \<open>asc\<close>; the CJK labels of constants.js
  are written as their code units.
\<close>

type_synonym jsstring = "nat list"

definition asc :: "string \<Rightarrow> jsstring" where
  "asc s = map of_char s"

text \<open>CATEGORIES: the six labels \<open>WORK\<close> ... \<open>RELAX_BED\<close>.\<close>

definition WORK :: jsstring where "WORK = [0x5DE5, 0x4F5C]"
definition ROUTINE :: jsstring where "ROUTINE = [0x65E5, 0x5E38]"
definition DEVELOPMENT :: jsstring where "DEVELOPMENT = [0x5B78, 0x7FD2]"
definition FAMILY :: jsstring where "FAMILY = [0x5BB6, 0x5EAD]"
definition SOCIAL :: jsstring where "SOCIAL = [0x793E, 0x4EA4]"
definition RELAX_BED :: jsstring where "RELAX_BED = [0x4F11, 0x606F]"

definition CATEGORY_ORDER :: "jsstring list" where
  "CATEGORY_ORDER = [WORK, DEVELOPMENT, ROUTINE, FAMILY, SOCIAL, RELAX_BED]"

text \<open>THRESHOLDS.ENERGY_CHANGE, TIME.MINUTES_PER_HOUR, TIME.MINUTES_PER_DAY.\<close>

definition ENERGY_CHANGE :: int where "ENERGY_CHANGE = 2"
definition MINUTES_PER_HOUR :: int where "MINUTES_PER_HOUR = 60"
definition MINUTES_PER_DAY :: int where "MINUTES_PER_DAY = 1440"

section \<open>Entries\<close>

text \<open>
  The object built by \<open>parseTimeEntry\<close>. The numeric fields hold whole numbers
  (\<open>index + 1\<close>, a string length, a difference of whole minutes), so they are integers
  here. The field \<open>id\<close> is \<open>entry_id\<close> and \<open>end\<close> is \<open>end_time\<close>.
\<close>

record entry =
  entry_id :: int
  start :: jsstring
  end_time :: jsstring
  content :: jsstring
  immersion :: int
  duration :: int
  category :: jsstring

section \<open>Analyzer (analyzer.js)\<close>

subsection \<open>calculateImmersionDistribution\<close>

text \<open>
  The object literal with the own keys 5, 4, 3, 2, 1, each 0, is a map. The body of
  \<open>forEach\<close> is \<open>distribution_step\<close>; inside the guard the key is one of the five
  own keys, so the lookup finds a value (the \<open>None\<close> branch is never taken).
\<close>

definition distribution_init :: "int \<rightharpoonup> int" where
  "distribution_init = [5 \<mapsto> 0, 4 \<mapsto> 0, 3 \<mapsto> 0, 2 \<mapsto> 0, 1 \<mapsto> 0]"

definition distribution_step :: "(int \<rightharpoonup> int) \<Rightarrow> entry \<Rightarrow> (int \<rightharpoonup> int)" where
  "distribution_step d e =
     (if immersion e \<ge> 1 \<and> immersion e \<le> 5
      then (case d (immersion e) of
              Some v \<Rightarrow> d(immersion e \<mapsto> v + duration e)
            | None \<Rightarrow> d)
      else d)"

definition calculateImmersionDistribution :: "entry list \<Rightarrow> (int \<rightharpoonup> int)" where
  "calculateImmersionDistribution entries = foldl distribution_step distribution_init entries"

subsection \<open>calculateTotalTime\<close>

definition calculateTotalTime :: "entry list \<Rightarrow> int" where
  "calculateTotalTime entries = foldl (\<lambda>total e. total + duration e) 0 entries"

subsection \<open>identifyEnergyTransitions\<close>

datatype direction = increase | decrease

record transition =
  time :: jsstring
  kind :: direction
  difference :: int
  from_entry :: "jsstring \<times> int"
  to_entry :: "jsstring \<times> int"

text \<open>
  The \<open>for\<close> loop from \<open>i = 1\<close>: \<open>transitions_loop active i acc\<close> is the rest of the loop
  at index \<open>i\<close> with the transitions pushed so far.
\<close>

function transitions_loop :: "entry list \<Rightarrow> nat \<Rightarrow> transition list \<Rightarrow> transition list" where
  "transitions_loop activeEntries i transitions =
     (if i < length activeEntries
      then (let previous = activeEntries ! (i - 1);
                current = activeEntries ! i;
                diff = immersion current - immersion previous
            in transitions_loop activeEntries (i + 1)
                 (if \<bar>diff\<bar> \<ge> ENERGY_CHANGE
                  then transitions @
                    [\<lparr> time = start current,
                       kind = (if diff > 0 then increase else decrease),
                       difference = diff,
                       from_entry = (content previous, immersion previous),
                       to_entry = (content current, immersion current) \<rparr>]
                  else transitions))
      else transitions)"
  by pat_completeness auto
termination
  by (relation "measure (\<lambda>(a, i, t). length a - i)") auto

declare transitions_loop.simps [simp del]

definition activeEntries :: "entry list \<Rightarrow> entry list" where
  "activeEntries entries = filter (\<lambda>e. category e \<noteq> RELAX_BED) entries"

definition identifyEnergyTransitions :: "entry list \<Rightarrow> transition list" where
  "identifyEnergyTransitions entries = transitions_loop (activeEntries entries) 1 []"

text \<open>The record pushed for the pair \<open>(previous, current)\<close>, and the test that pushes it.\<close>

definition transition_of :: "entry \<times> entry \<Rightarrow> transition" where
  "transition_of pc =
     \<lparr> time = start (snd pc),
       kind = (if immersion (snd pc) - immersion (fst pc) > 0 then increase else decrease),
       difference = immersion (snd pc) - immersion (fst pc),
       from_entry = (content (fst pc), immersion (fst pc)),
       to_entry = (content (snd pc), immersion (snd pc)) \<rparr>"

definition significant :: "entry \<times> entry \<Rightarrow> bool" where
  "significant pc \<longleftrightarrow> \<bar>immersion (snd pc) - immersion (fst pc)\<bar> \<ge> 2"

subsection \<open>Double-precision arithmetic\<close>

text \<open>
  JavaScript numbers are IEEE 754 doubles. Whole numbers below \<open>2^53\<close> and their sums
  are exact; a quotient or a product is the exact result rounded to the nearest double,
  ties to the even mantissa. \<open>round_to_double\<close> is that rounding on the rationals, for
  the normal range (no overflow, no subnormals: the quotients and products below are
  far from both). \<open>bitlen n\<close> is the number of binary digits of \<open>n\<close>, and
  \<open>binary_exponent a\<close> is the \<open>e\<close> with \<open>2^e \<le> a < 2^(e+1)\<close> for a positive \<open>a\<close>.
\<close>

fun bitlen :: "nat \<Rightarrow> nat" where
  "bitlen n = (if n = 0 then 0 else Suc (bitlen (n div 2)))"

declare bitlen.simps [simp del]

definition pow2 :: "int \<Rightarrow> rat" where
  "pow2 k = (if 0 \<le> k then 2 ^ nat k else 1 / 2 ^ nat (- k))"

definition round_half_even :: "rat \<Rightarrow> int" where
  "round_half_even q =
     (let f = \<lfloor>q\<rfloor>; r = q - of_int f
      in if r < 1 / 2 then f
         else if r > 1 / 2 then f + 1
         else if even f then f else f + 1)"

definition binary_exponent :: "rat \<Rightarrow> int" where
  "binary_exponent a =
     (if 1 \<le> a then int (bitlen (nat \<lfloor>a\<rfloor>)) - 1
      else - int (bitlen (nat (\<lceil>1 / a\<rceil> - 1))))"

definition round_to_double :: "rat \<Rightarrow> rat" where
  "round_to_double x =
     (if x = 0 then 0
      else (let a = \<bar>x\<bar>;
                e = binary_exponent a;
                m = round_half_even (a * pow2 (52 - e))
            in sgn x * of_int m * pow2 (e - 52)))"

text \<open>\<open>Math.round\<close>: the nearest integer, a tie going up.\<close>

definition Math_round :: "rat \<Rightarrow> int" where
  "Math_round x = \<lfloor>x + 1 / 2\<rfloor>"

subsection \<open>calculateProductivityScore\<close>

text \<open>
  The state of the \<open>forEach\<close> is the pair
  \<open>(productiveHighImmersionTime, totalActiveTime)\<close>.
\<close>

definition productiveCategories :: "jsstring list" where
  "productiveCategories = [WORK, DEVELOPMENT]"

definition productivity_step :: "int \<times> int \<Rightarrow> entry \<Rightarrow> int \<times> int" where
  "productivity_step acc e =
     (if category e = RELAX_BED then acc
      else (let totalActiveTime = snd acc + duration e
            in if category e \<in> set productiveCategories \<and> immersion e \<ge> 4
               then (fst acc + duration e, totalActiveTime)
               else (fst acc, totalActiveTime)))"

definition calculateProductivityScore :: "entry list \<Rightarrow> int" where
  "calculateProductivityScore entries =
     (let (productiveHighImmersionTime, totalActiveTime) =
            foldl productivity_step (0, 0) entries
      in if totalActiveTime = 0 then 0
         else Math_round
                (round_to_double
                   (round_to_double (of_int productiveHighImmersionTime / of_int totalActiveTime)
                    * 100)))"

text \<open>The two sums the score is made of, as the specification words them.\<close>

definition totalActiveMinutes :: "entry list \<Rightarrow> int" where
  "totalActiveMinutes entries =
     sum_list (map duration (filter (\<lambda>e. category e \<noteq> RELAX_BED) entries))"

definition productiveHighImmersionMinutes :: "entry list \<Rightarrow> int" where
  "productiveHighImmersionMinutes entries =
     sum_list (map duration
       (filter (\<lambda>e. category e \<noteq> RELAX_BED \<and> (category e = WORK \<or> category e = DEVELOPMENT)
                    \<and> immersion e \<ge> 4) entries))"

subsection \<open>analyzeImmersionByCategory\<close>

text \<open>
  \<open>categoryStats\<close> is an object used as a dictionary: an association list in the order
  in which the keys were added, which is the order \<open>Object.entries\<close> lists them in (the
  keys are category labels, not array indices, and none of them is the name of a property
  inherited from \<open>Object.prototype\<close>). A value is the pair \<open>(totalImmersion, totalTime)\<close>.
\<close>

type_synonym category_stats = "(jsstring \<times> int \<times> int) list"

definition stats_step :: "category_stats \<Rightarrow> entry \<Rightarrow> category_stats" where
  "stats_step categoryStats e =
     (if category e = RELAX_BED \<or> immersion e = 0 then categoryStats
      else (let initialised =
                  (if map_of categoryStats (category e) = None
                   then categoryStats @ [(category e, (0, 0))]
                   else categoryStats)
            in map (\<lambda>(k, (totalImmersion, totalTime)).
                      if k = category e
                      then (k, (totalImmersion + immersion e * duration e, totalTime + duration e))
                      else (k, (totalImmersion, totalTime)))
                   initialised))"

text \<open>
  The quotient of two whole numbers as JavaScript computes it: \<open>0 / 0\<close> is \<open>NaN\<close>, a
  non-zero number over 0 is an infinity.
\<close>

datatype jsnumber = NaN | PosInfinity | NegInfinity | Finite rat

definition js_divide :: "int \<Rightarrow> int \<Rightarrow> jsnumber" where
  "js_divide a b =
     (if b = 0
      then (if a = 0 then NaN else if a > 0 then PosInfinity else NegInfinity)
      else Finite (round_to_double (of_int a / of_int b)))"

text \<open>
  \<open>toFixed(1)\<close> yields a string: \<open>"NaN"\<close>, \<open>"Infinity"\<close>, \<open>"-Infinity"\<close>, or the decimal
  numeral with one fractional digit of the nearest number of tenths, a tie going away
  from zero. The numeral is represented by its number of tenths (below \<open>10^21\<close>, where
  \<open>toFixed\<close> changes notation).
\<close>

datatype fixed1 = StrNaN | StrInfinity | StrNegInfinity | Tenths int

definition toFixed1 :: "jsnumber \<Rightarrow> fixed1" where
  "toFixed1 x =
     (case x of
        NaN \<Rightarrow> StrNaN
      | PosInfinity \<Rightarrow> StrInfinity
      | NegInfinity \<Rightarrow> StrNegInfinity
      | Finite q \<Rightarrow> Tenths (if q < 0 then - \<lfloor>10 * \<bar>q\<bar> + 1 / 2\<rfloor> else \<lfloor>10 * q + 1 / 2\<rfloor>))"

record immersion_analysis =
  stat_category :: jsstring
  averageImmersion :: fixed1
  totalTime :: int

text \<open>
  The comparator \<open>(a, b) => b.averageImmersion - a.averageImmersion\<close> converts both
  strings back to numbers; \<open>placed_after a b\<close> holds when its result is positive, so that
  \<open>b\<close> goes before \<open>a\<close>. A difference with \<open>NaN\<close>, or of two equal infinities, is \<open>NaN\<close>
  and counts as 0. The sort is stable; \<open>sort_analysis\<close> is the stable insertion sort by
  this comparator. (Where an average is \<open>NaN\<close> the comparator is not a consistent
  order, and the language leaves the order of the result to the implementation.)
\<close>

definition placed_after :: "immersion_analysis \<Rightarrow> immersion_analysis \<Rightarrow> bool" where
  "placed_after a b =
     (case (averageImmersion b, averageImmersion a) of
        (StrNaN, _) \<Rightarrow> False
      | (_, StrNaN) \<Rightarrow> False
      | (StrInfinity, StrInfinity) \<Rightarrow> False
      | (StrInfinity, _) \<Rightarrow> True
      | (_, StrInfinity) \<Rightarrow> False
      | (StrNegInfinity, _) \<Rightarrow> False
      | (_, StrNegInfinity) \<Rightarrow> True
      | (Tenths y, Tenths x) \<Rightarrow> y > x)"

fun insert_sorted :: "immersion_analysis \<Rightarrow> immersion_analysis list \<Rightarrow> immersion_analysis list" where
  "insert_sorted a [] = [a]"
| "insert_sorted a (b # bs) =
     (if placed_after a b then b # insert_sorted a bs else a # b # bs)"

definition sort_analysis :: "immersion_analysis list \<Rightarrow> immersion_analysis list" where
  "sort_analysis xs = foldr insert_sorted xs []"

definition analyzeImmersionByCategory :: "entry list \<Rightarrow> immersion_analysis list" where
  "analyzeImmersionByCategory entries =
     (let categoryStats = foldl stats_step [] entries;
          analysis = map (\<lambda>(c, (totalImmersion, totalTime)).
                       \<lparr> stat_category = c,
                         averageImmersion = toFixed1 (js_divide totalImmersion totalTime),
                         totalTime = totalTime \<rparr>) categoryStats
      in sort_analysis analysis)"

section \<open>Parser (parser.js)\<close>

subsection \<open>Character classes and string operations\<close>

text \<open>
  \<open>is_space\<close> is the class \<open>\s\<close> of a regular expression, which is also what \<open>trim\<close>
  removes: the white space and line terminator code points.
\<close>

definition is_space :: "nat \<Rightarrow> bool" where
  "is_space c \<longleftrightarrow>
     c \<in> {0x9, 0xA, 0xB, 0xC, 0xD, 0x20, 0xA0, 0x1680, 0x2028, 0x2029, 0x202F, 0x205F,
          0x3000, 0xFEFF}
     \<or> (0x2000 \<le> c \<and> c \<le> 0x200A)"

definition is_line_terminator :: "nat \<Rightarrow> bool" where
  "is_line_terminator c \<longleftrightarrow> c \<in> {0xA, 0xD, 0x2028, 0x2029}"

definition is_digit :: "nat \<Rightarrow> bool" where
  "is_digit c \<longleftrightarrow> 0x30 \<le> c \<and> c \<le> 0x39"

definition trim :: "jsstring \<Rightarrow> jsstring" where
  "trim s = rev (dropWhile is_space (rev (dropWhile is_space s)))"

text \<open>\<open>s.split(sep)\<close> for a separator of one code unit; the result is never empty.\<close>

fun split_on :: "nat \<Rightarrow> jsstring \<Rightarrow> jsstring list" where
  "split_on sep [] = [[]]"
| "split_on sep (c # cs) =
     (if c = sep then [] # split_on sep cs
      else (case split_on sep cs of
              w # ws \<Rightarrow> (c # w) # ws
            | [] \<Rightarrow> [[c]]))"

text \<open>\<open>s.indexOf(t)\<close>, \<open>-1\<close> when \<open>t\<close> does not occur; \<open>s.substring(k)\<close>.\<close>

fun indexOf :: "jsstring \<Rightarrow> jsstring \<Rightarrow> int" where
  "indexOf [] t = (if t = [] then 0 else - 1)"
| "indexOf (c # cs) t =
     (if prefix t (c # cs) then 0
      else (let r = indexOf cs t in if r < 0 then - 1 else r + 1))"

definition substring :: "jsstring \<Rightarrow> int \<Rightarrow> jsstring" where
  "substring s k = drop (nat k) s"

text \<open>\<open>s.replace(t, '')\<close> with a string pattern: the first occurrence of \<open>t\<close> is removed.\<close>

definition remove_first :: "jsstring \<Rightarrow> jsstring \<Rightarrow> jsstring" where
  "remove_first s t =
     (let i = indexOf s t
      in if i < 0 then s else take (nat i) s @ drop (nat i + length t) s)"

subsection \<open>PATTERNS\<close>

text \<open>
  THOUGHT \<open>/^\s*[-]?\s*>\s*(.*)/\<close> and ACTION \<open>/^\s*[-]?\s*v\s*(.*)/\<close> differ in the
  marker only. \<open>marker_match m s\<close> is the first capture group, or \<open>None\<close> when the
  pattern does not match. Each \<open>\s*\<close> is followed by something that is not white space,
  so the greedy match is the only one; \<open>.\<close> stops at a line terminator.
\<close>

definition marker_match :: "nat \<Rightarrow> jsstring \<Rightarrow> jsstring option" where
  "marker_match m s =
     (let s1 = dropWhile is_space s;
          s2 = (case s1 of c # r \<Rightarrow> if c = 0x2D then r else s1 | [] \<Rightarrow> s1);
          s3 = dropWhile is_space s2
      in case s3 of
           c # r \<Rightarrow>
             if c = m
             then Some (takeWhile (\<lambda>c. \<not> is_line_terminator c) (dropWhile is_space r))
             else None
         | [] \<Rightarrow> None)"

definition THOUGHT :: "jsstring \<Rightarrow> jsstring option" where
  "THOUGHT = marker_match 0x3E"

definition ACTION :: "jsstring \<Rightarrow> jsstring option" where
  "ACTION = marker_match 0x76"

text \<open>
  TIME_HEADER \<open>/(\d{2}:\d{2})\s*~\s*(\d{2}:\d{2})/\<close>. \<open>hhmm_prefix\<close> matches
  \<open>\d{2}:\d{2}\<close> at the front of a string and returns the matched text and the rest;
  \<open>time_at\<close> matches the whole pattern at the front and returns the two groups and the
  length of the match; \<open>TIME_HEADER\<close> is the leftmost match: its position, the matched
  text (\<open>timeMatch[0]\<close>) and the two groups.
\<close>

definition hhmm_prefix :: "jsstring \<Rightarrow> (jsstring \<times> jsstring) option" where
  "hhmm_prefix s =
     (case s of
        a # b # c # d # e # r \<Rightarrow>
          if is_digit a \<and> is_digit b \<and> c = 0x3A \<and> is_digit d \<and> is_digit e
          then Some ([a, b, c, d, e], r) else None
      | _ \<Rightarrow> None)"

definition time_at :: "jsstring \<Rightarrow> (jsstring \<times> jsstring \<times> nat) option" where
  "time_at s =
     (case hhmm_prefix s of
        None \<Rightarrow> None
      | Some (g1, r1) \<Rightarrow>
          (case dropWhile is_space r1 of
             [] \<Rightarrow> None
           | t # r2 \<Rightarrow>
               if t = 0x7E
               then (case hhmm_prefix (dropWhile is_space r2) of
                       None \<Rightarrow> None
                     | Some (g2, r3) \<Rightarrow> Some (g1, g2, length s - length r3))
               else None))"

fun TIME_HEADER :: "jsstring \<Rightarrow> (nat \<times> jsstring \<times> jsstring \<times> jsstring) option" where
  "TIME_HEADER [] = None"
| "TIME_HEADER (c # cs) =
     (case time_at (c # cs) of
        Some (g1, g2, n) \<Rightarrow> Some (0, take n (c # cs), g1, g2)
      | None \<Rightarrow>
          (case TIME_HEADER cs of
             Some (i, m, g1, g2) \<Rightarrow> Some (i + 1, m, g1, g2)
           | None \<Rightarrow> None))"

text \<open>BARS \<open>/([\<dots>|]+)/\<close>: the first run of bar characters (U+275A or \<open>|\<close>).\<close>

definition is_bar :: "nat \<Rightarrow> bool" where
  "is_bar c \<longleftrightarrow> c = 0x275A \<or> c = 0x7C"

definition BARS :: "jsstring \<Rightarrow> jsstring option" where
  "BARS s =
     (let r = dropWhile (\<lambda>c. \<not> is_bar c) s
      in if r = [] then None else Some (takeWhile is_bar r))"

subsection \<open>calculateDuration\<close>

text \<open>
  \<open>Number\<close> applied to a string: white space around it is dropped; the empty string is 0
  and a string of decimal digits is its value. The result for any other string is
  \<open>None\<close>: there the source has \<open>NaN\<close>, or the value of a numeral in a notation that is
  not modelled here (a sign, a fraction, an exponent, a radix prefix, \<open>Infinity\<close>).
\<close>

definition digit_value :: "nat \<Rightarrow> int" where
  "digit_value c = int c - 0x30"

definition decimal_value :: "jsstring \<Rightarrow> int" where
  "decimal_value s = foldl (\<lambda>acc c. acc * 10 + digit_value c) 0 s"

definition Number :: "jsstring \<Rightarrow> int option" where
  "Number s =
     (let t = trim s
      in if list_all is_digit t then Some (decimal_value t) else None)"

text \<open>
  \<open>calculateDuration\<close>. The destructuring takes the first two components of the split;
  a missing component is \<open>undefined\<close> and makes the result \<open>NaN\<close>, which is \<open>None\<close> here,
  as is a result that depends on a component whose \<open>Number\<close> is not modelled.
\<close>

definition hour_and_minute :: "jsstring \<Rightarrow> (int \<times> int) option" where
  "hour_and_minute s =
     (case map Number (split_on 0x3A s) of
        Some h # Some m # _ \<Rightarrow> Some (h, m)
      | _ \<Rightarrow> None)"

definition calculateDuration :: "jsstring \<Rightarrow> jsstring \<Rightarrow> int option" where
  "calculateDuration start_s end_s =
     (case (hour_and_minute start_s, hour_and_minute end_s) of
        (Some (startHour, startMin), Some (endHour, endMin)) \<Rightarrow>
          (let minutes = (endHour * MINUTES_PER_HOUR + endMin)
                         - (startHour * MINUTES_PER_HOUR + startMin)
           in Some (if minutes < 0 then minutes + MINUTES_PER_DAY else minutes))
      | _ \<Rightarrow> None)"

subsection \<open>parseTimeEntry and parseLogText\<close>

definition calculateImmersionLevel :: "jsstring \<Rightarrow> int" where
  "calculateImmersionLevel bars = int (length bars)"

text \<open>
  \<open>parseTimeEntry\<close> returns the entry object. Its duration is a whole number for every
  match of TIME_HEADER (lemma \<open>parseTimeEntry_defined\<close> below), so the result \<open>None\<close>,
  which stands for a duration outside the model, does not arise in \<open>parseLogText\<close>.
\<close>

definition parseTimeEntry ::
  "jsstring \<Rightarrow> nat \<times> jsstring \<times> jsstring \<times> jsstring \<Rightarrow> nat \<Rightarrow> entry option" where
  "parseTimeEntry line timeMatch index =
     (case timeMatch of (pos, timePart, start_s, end_s) \<Rightarrow>
        (let rest = substring line (indexOf line timePart + int (length timePart));
             barsMatch = BARS rest;
             immersion_v = (case barsMatch of Some bars \<Rightarrow> calculateImmersionLevel bars
                                            | None \<Rightarrow> 0);
             rest' = (case barsMatch of Some bars \<Rightarrow> remove_first rest bars | None \<Rightarrow> rest)
         in case calculateDuration start_s end_s of
              None \<Rightarrow> None
            | Some d \<Rightarrow>
                Some \<lparr> entry_id = int index + 1,
                       start = start_s,
                       end_time = end_s,
                       content = trim rest',
                       immersion = immersion_v,
                       duration = d,
                       category = ROUTINE \<rparr>))"

record parsed_log =
  entries :: "entry list"
  thoughts :: "jsstring list"
  actions :: "jsstring list"

text \<open>The callback of \<open>lines.forEach\<close>, on the three arrays it pushes to.\<close>

definition parse_line :: "parsed_log \<Rightarrow> jsstring \<Rightarrow> nat \<Rightarrow> parsed_log" where
  "parse_line acc line index =
     (let cleanLine = trim line
      in if cleanLine = [] then acc
         else (case THOUGHT cleanLine of
                 Some t \<Rightarrow> acc\<lparr>thoughts := thoughts acc @ [trim t]\<rparr>
               | None \<Rightarrow>
                   (case ACTION cleanLine of
                      Some a \<Rightarrow> acc\<lparr>actions := actions acc @ [trim a]\<rparr>
                    | None \<Rightarrow>
                        (case TIME_HEADER cleanLine of
                           Some timeMatch \<Rightarrow>
                             (case parseTimeEntry cleanLine timeMatch index of
                                Some e \<Rightarrow> acc\<lparr>entries := entries acc @ [e]\<rparr>
                              | None \<Rightarrow> acc)
                         | None \<Rightarrow> acc))))"

fun forEach_line :: "parsed_log \<Rightarrow> nat \<Rightarrow> jsstring list \<Rightarrow> parsed_log" where
  "forEach_line acc index [] = acc"
| "forEach_line acc index (line # lines) =
     forEach_line (parse_line acc line index) (index + 1) lines"

definition empty_log :: parsed_log where
  "empty_log = \<lparr> entries = [], thoughts = [], actions = [] \<rparr>"

definition parseLogText :: "jsstring \<Rightarrow> parsed_log" where
  "parseLogText rawText = forEach_line empty_log 0 (split_on 0xA rawText)"

subsection \<open>addSleepPeriodIfMissing, validateEntries, getUserEntries\<close>

text \<open>
  \<open>entries.sort((a, b) => a.start.localeCompare(b.start))\<close> is a stable sort. On the
  strings \<open>\d{2}:\d{2}\<close> that the parser stores in \<open>start\<close>, \<open>localeCompare\<close> orders by
  the first differing digit, which is the lexicographic order of the code units used
  here. \<open>None\<close> is returned when the duration of the synthetic entry is outside the
  model (see \<open>calculateDuration\<close>).
\<close>

definition midnight :: jsstring where
  "midnight = asc ''00:00''"

definition sleep_placeholder :: jsstring where
  "sleep_placeholder =
     [0xFF08, 0x81EA, 0x52D5, 0x88DC, 0x9F4A, 0x7761, 0x7720, 0x6642, 0x6BB5, 0xFF09]"

definition addSleepPeriodIfMissing :: "entry list \<Rightarrow> entry list option" where
  "addSleepPeriodIfMissing es =
     (if es = [] then Some es
      else (case sort_key start es of
              [] \<Rightarrow> Some []
            | first # others \<Rightarrow>
                if start first \<noteq> midnight
                then (case calculateDuration midnight (start first) of
                        None \<Rightarrow> None
                      | Some d \<Rightarrow>
                          Some (\<lparr> entry_id = 0,
                                  start = midnight,
                                  end_time = start first,
                                  content = sleep_placeholder,
                                  immersion = 0,
                                  duration = d,
                                  category = RELAX_BED \<rparr> # first # others))
                else Some (first # others)))"

datatype parse_error = NoValidLog

definition validateEntries :: "entry list \<Rightarrow> parse_error + unit" where
  "validateEntries es = (if es = [] then Inl NoValidLog else Inr ())"

definition getUserEntries :: "entry list \<Rightarrow> entry list" where
  "getUserEntries es = filter (\<lambda>e. entry_id e \<noteq> 0) es"

section \<open>Categorizer (api.js)\<close>

subsection \<open>getCategoryByKeyword and categorizeWithKeywords\<close>

text \<open>
  \<open>toLowerCase\<close> maps \<open>A\<close>-\<open>Z\<close> to \<open>a\<close>-\<open>z\<close>. Outside ASCII the code units are left
  as they are: the only other character whose lower case contains a character of a
  keyword is U+0130, which becomes \<open>i\<close> followed by U+0307, and no keyword has an \<open>i\<close>
  at its end or before U+0307, so the four tests below come out as in the source.
\<close>

definition toLowerCase :: "jsstring \<Rightarrow> jsstring" where
  "toLowerCase s = map (\<lambda>c. if 0x41 \<le> c \<and> c \<le> 0x5A then c + 0x20 else c) s"

text \<open>
  \<open>parseInt\<close> with no radix: leading white space is skipped, a sign is read, a prefix
  \<open>0x\<close> or \<open>0X\<close> selects radix 16, and the longest run of digits of the radix is the
  value; \<open>None\<close> is \<open>NaN\<close> (no digit).
\<close>

definition radix_digit :: "nat \<Rightarrow> nat \<Rightarrow> int option" where
  "radix_digit radix c =
     (let v = (if 0x30 \<le> c \<and> c \<le> 0x39 then Some (int c - 0x30)
               else if 0x61 \<le> c \<and> c \<le> 0x7A then Some (int c - 0x61 + 10)
               else if 0x41 \<le> c \<and> c \<le> 0x5A then Some (int c - 0x41 + 10)
               else None)
      in case v of Some d \<Rightarrow> if d < int radix then Some d else None | None \<Rightarrow> None)"

definition radix_value :: "nat \<Rightarrow> jsstring \<Rightarrow> int option" where
  "radix_value radix s =
     (let ds = takeWhile (\<lambda>c. radix_digit radix c \<noteq> None) s
      in if ds = [] then None
         else Some (foldl (\<lambda>acc c. acc * int radix
                              + (case radix_digit radix c of Some d \<Rightarrow> d | None \<Rightarrow> 0)) 0 ds))"

definition parseInt :: "jsstring \<Rightarrow> int option" where
  "parseInt s =
     (let s1 = dropWhile is_space s;
          negative = (case s1 of c # _ \<Rightarrow> c = 0x2D | [] \<Rightarrow> False);
          s2 = (case s1 of c # r \<Rightarrow> if c = 0x2B \<or> c = 0x2D then r else s1 | [] \<Rightarrow> s1);
          hex = (case s2 of a # b # _ \<Rightarrow> a = 0x30 \<and> (b = 0x78 \<or> b = 0x58) | _ \<Rightarrow> False);
          v = (if hex then radix_value 16 (drop 2 s2) else radix_value 10 s2)
      in case v of Some n \<Rightarrow> Some (if negative then - n else n) | None \<Rightarrow> None)"

text \<open>
  \<open>s.match(/k1|k2|.../)\<close> is truthy when one of the alternatives occurs in \<open>s\<close>.
  The four keyword lists are those of the four regular expressions in the source.
\<close>

definition matches_any :: "jsstring list \<Rightarrow> jsstring \<Rightarrow> bool" where
  "matches_any alternatives s = list_ex (\<lambda>k. sublist k s) alternatives"

definition sleep_keywords :: "jsstring list" where
  "sleep_keywords =
     [[0x7761], asc ''sleep'', asc ''nap'', [0x4F11, 0x606F], [0x653E, 0x9B06]]"

definition work_keywords :: "jsstring list" where
  "work_keywords =
     [asc ''slide'', [0x5DE5, 0x4F5C], [0x958B, 0x6703], asc ''meeting'', [0x6703, 0x8B70]]"

definition development_keywords :: "jsstring list" where
  "development_keywords =
     [[0x8B80, 0x66F8], [0x5B78, 0x7FD2], asc ''study'', asc ''learning'', [0x95B1, 0x8B80],
      [0x958B, 0x767C]]"

definition family_keywords :: "jsstring list" where
  "family_keywords =
     [[0x5BB6, 0x4EBA], [0x7236, 0x6BCD], [0x7238], [0x5ABD], asc ''family'']"

definition getCategoryByKeyword :: "jsstring \<Rightarrow> jsstring \<Rightarrow> jsstring" where
  "getCategoryByKeyword content_s startTime =
     (let lowerContent = toLowerCase content_s;
          hour = (case split_on 0x3A startTime of h # _ \<Rightarrow> parseInt h | [] \<Rightarrow> None)
      in if matches_any sleep_keywords lowerContent then RELAX_BED
         else if matches_any work_keywords lowerContent then WORK
         else if matches_any development_keywords lowerContent then DEVELOPMENT
         else if matches_any family_keywords lowerContent then FAMILY
         else if (case hour of Some h \<Rightarrow> h \<ge> 0 \<and> h < 7 | None \<Rightarrow> False) then RELAX_BED
         else ROUTINE)"

definition categorizeWithKeywords :: "entry list \<Rightarrow> entry list" where
  "categorizeWithKeywords es =
     map (\<lambda>e. e\<lparr>category := getCategoryByKeyword (content e) (start e)\<rparr>) es"

text \<open>
  The decision table as the specification words it: four keyword rules tried in order,
  the first that matches decides; otherwise the start hour decides.
\<close>

definition keyword_rules :: "(jsstring list \<times> jsstring) list" where
  "keyword_rules =
     [(sleep_keywords, RELAX_BED), (work_keywords, WORK),
      (development_keywords, DEVELOPMENT), (family_keywords, FAMILY)]"

definition start_hour :: "jsstring \<Rightarrow> int option" where
  "start_hour startTime = parseInt (takeWhile (\<lambda>c. c \<noteq> 0x3A) startTime)"

definition first_match_category :: "jsstring \<Rightarrow> jsstring \<Rightarrow> jsstring" where
  "first_match_category content_s startTime =
     (case find (\<lambda>rule. matches_any (fst rule) (toLowerCase content_s)) keyword_rules of
        Some rule \<Rightarrow> snd rule
      | None \<Rightarrow>
          (case start_hour startTime of
             Some h \<Rightarrow> if 0 \<le> h \<and> h < 7 then RELAX_BED else ROUTINE
           | None \<Rightarrow> ROUTINE))"

subsection \<open>categorizeWithAI\<close>

text \<open>
  \<open>ai_response\<close> is what the steps before the validation come to: \<open>callGeminiApi\<close>
  throws (transport failure, a status that is not ok, a malformed envelope), or
  \<open>JSON.parse\<close> throws on the cleaned text, or it yields a value that is not an array,
  or it yields an array, whose elements are taken to be strings as the prompt asks.
\<close>

datatype ai_response =
  TransportFailure
| ParseFailure
| NotAnArray
| CategoryArray "jsstring list"

datatype ai_error = ConnectionFailed | JsonSyntaxError | InvalidCategorization

text \<open>
  \<open>entries.forEach((entry, index) => entry.category = categories[index])\<close> runs only
  after the length check, so both lists end together.
\<close>

fun apply_categories :: "entry list \<Rightarrow> jsstring list \<Rightarrow> entry list" where
  "apply_categories (e # es) (c # cs) = e\<lparr>category := c\<rparr> # apply_categories es cs"
| "apply_categories es cs = es"

text \<open>
  The function mutates the entries and either returns or throws: the result is the
  error thrown, if any, with the entries as they are afterwards.
\<close>

definition categorizeWithAI :: "entry list \<Rightarrow> ai_response \<Rightarrow> ai_error option \<times> entry list" where
  "categorizeWithAI es response =
     (case response of
        TransportFailure \<Rightarrow> (Some ConnectionFailed, es)
      | ParseFailure \<Rightarrow> (Some JsonSyntaxError, es)
      | NotAnArray \<Rightarrow> (Some InvalidCategorization, es)
      | CategoryArray categories \<Rightarrow>
          if length categories \<noteq> length es then (Some InvalidCategorization, es)
          else (None, apply_categories es categories))"

section \<open>Entries of a line\<close>

text \<open>
  \<open>line_entries line index\<close> is what the callback of \<open>parseLogText\<close> pushes to
  \<open>entries\<close> for the line at the 0-based position \<open>index\<close>: nothing or one entry.
\<close>

definition line_entries :: "jsstring \<Rightarrow> nat \<Rightarrow> entry list" where
  "line_entries line index = entries (parse_line empty_log line index)"

section \<open>Times of day\<close>

text \<open>
  The notions the specification uses for times. \<open>is_hhmm\<close> is the format \<open>HH:MM\<close> (two
  digits, a colon, two digits), which is what the groups of TIME_HEADER hold;
  \<open>valid_time\<close> adds that the hour is at most 23 and the minute at most 59;
  \<open>minutes_since_midnight\<close> reads the four digits by position.
\<close>

definition is_hhmm :: "jsstring \<Rightarrow> bool" where
  "is_hhmm s \<longleftrightarrow>
     length s = 5 \<and> is_digit (s ! 0) \<and> is_digit (s ! 1) \<and> s ! 2 = 0x3A
     \<and> is_digit (s ! 3) \<and> is_digit (s ! 4)"

definition hour_of :: "jsstring \<Rightarrow> int" where
  "hour_of s = 10 * digit_value (s ! 0) + digit_value (s ! 1)"

definition minute_of :: "jsstring \<Rightarrow> int" where
  "minute_of s = 10 * digit_value (s ! 3) + digit_value (s ! 4)"

definition valid_time :: "jsstring \<Rightarrow> bool" where
  "valid_time s \<longleftrightarrow> is_hhmm s \<and> hour_of s \<le> 23 \<and> minute_of s \<le> 59"

definition minutes_since_midnight :: "jsstring \<Rightarrow> int" where
  "minutes_since_midnight s = hour_of s * 60 + minute_of s"

section \<open>Example entries\<close>

definition example_work :: entry where
  "example_work =
     \<lparr> entry_id = 1, start = asc ''09:00'', end_time = asc ''09:23'',
       content = asc ''meeting'', immersion = 4, duration = 23, category = WORK \<rparr>"

definition example_lunch :: entry where
  "example_lunch =
     \<lparr> entry_id = 2, start = asc ''09:23'', end_time = asc ''09:40'',
       content = asc ''lunch'', immersion = 2, duration = 17, category = ROUTINE \<rparr>"

definition example_sleep :: entry where
  "example_sleep =
     \<lparr> entry_id = 1, start = asc ''00:00'', end_time = asc ''07:00'',
       content = asc ''sleep'', immersion = 0, duration = 420, category = RELAX_BED \<rparr>"

definition example_line :: jsstring where
  "example_line = asc ''09:00~09:00 x|''"

definition example_log :: jsstring where
  "example_log = asc ''> idea'' @ [0xA] @ example_line"

definition example_entry :: "int \<Rightarrow> entry" where
  "example_entry n =
     \<lparr> entry_id = n, start = asc ''09:00'', end_time = asc ''09:00'', content = asc ''x'',
       immersion = 1, duration = 0, category = ROUTINE \<rparr>"

definition example_gap :: entry where
  "example_gap =
     \<lparr> entry_id = 0, start = asc ''00:00'', end_time = asc ''09:00'',
       content = sleep_placeholder, immersion = 0, duration = 540, category = RELAX_BED \<rparr>"

section \<open>Properties of the analyzer\<close>

subsection \<open>Energy transitions\<close>

lemma zip_drop_step:
  assumes "1 \<le> i" "i < length a"
  shows "zip (drop (i - 1) a) (drop i a) = (a ! (i - 1), a ! i) # zip (drop i a) (drop (i + 1) a)"
proof -
  from assms have "drop (i - 1) a = a ! (i - 1) # drop i a"
    using Cons_nth_drop_Suc [of "i - 1" a] by simp
  moreover from assms have "drop i a = a ! i # drop (i + 1) a"
    using Cons_nth_drop_Suc [of i a] by simp
  ultimately show ?thesis by (metis zip_Cons_Cons)
qed

lemma transitions_loop_eq:
  "1 \<le> i \<Longrightarrow> transitions_loop a i acc =
     acc @ map transition_of (filter significant (zip (drop (i - 1) a) (drop i a)))"
proof (induction a i acc rule: transitions_loop.induct)
  case (1 a i acc)
  show ?case
  proof (cases "i < length a")
    case True
    define pc where "pc = (a ! (i - 1), a ! i)"
    define acc' where "acc' = (if significant pc then acc @ [transition_of pc] else acc)"
    have unfold: "transitions_loop a i acc = transitions_loop a (i + 1) acc'"
      by (subst transitions_loop.simps)
         (simp add: True Let_def acc'_def pc_def transition_of_def significant_def ENERGY_CHANGE_def)
    have e: "(if \<bar>immersion (a ! i) - immersion (a ! (i - 1))\<bar> \<ge> ENERGY_CHANGE
              then acc @
                [\<lparr> time = start (a ! i),
                   kind = (if immersion (a ! i) - immersion (a ! (i - 1)) > 0
                           then increase else decrease),
                   difference = immersion (a ! i) - immersion (a ! (i - 1)),
                   from_entry = (content (a ! (i - 1)), immersion (a ! (i - 1))),
                   to_entry = (content (a ! i), immersion (a ! i)) \<rparr>]
              else acc) = acc'"
      by (simp add: acc'_def pc_def transition_of_def significant_def ENERGY_CHANGE_def)
    have "1 \<le> i + 1" by simp
    from "1.IH" [OF True refl refl refl this, unfolded e]
    have "transitions_loop a (i + 1) acc' =
        acc' @ map transition_of (filter significant (zip (drop i a) (drop (i + 1) a)))"
      by simp
    moreover have "zip (drop (i - 1) a) (drop i a) = pc # zip (drop i a) (drop (i + 1) a)"
      unfolding pc_def using zip_drop_step "1.prems" True by simp
    ultimately show ?thesis
      using unfold by (simp add: acc'_def)
  next
    case False
    then show ?thesis
      by (subst transitions_loop.simps) simp
  qed
qed

lemma length_filter_zip_tl:
  assumes "xs \<noteq> []"
  shows "length (filter P (zip xs (tl xs))) < length xs"
proof -
  have "length (filter P (zip xs (tl xs))) \<le> length (zip xs (tl xs))"
    by (rule length_filter_le)
  also have "\<dots> = length xs - 1" by simp
  also have "\<dots> < length xs" using assms by (cases xs) auto
  finally show ?thesis .
qed

text \<open>
  C5 (as amended). \<open>identifyEnergyTransitions\<close> drops the resting entries, keeping the
  order, and returns, in order, one record for each pair of neighbours of the remaining
  sequence whose immersions differ by at least 2. When an entry remains, the result is
  strictly shorter than the remaining sequence; when none remains, both are empty.
\<close>

theorem identifyEnergyTransitions_pairs:
  "activeEntries es = filter (\<lambda>e. category e \<noteq> RELAX_BED) es
   \<and> identifyEnergyTransitions es =
       map transition_of (filter significant (zip (activeEntries es) (tl (activeEntries es))))
   \<and> (activeEntries es \<noteq> [] \<longrightarrow>
         length (identifyEnergyTransitions es) < length (activeEntries es))
   \<and> (activeEntries es = [] \<longrightarrow> identifyEnergyTransitions es = [])"
proof -
  have eq: "identifyEnergyTransitions es =
       map transition_of (filter significant (zip (activeEntries es) (tl (activeEntries es))))"
    by (simp add: identifyEnergyTransitions_def transitions_loop_eq drop_Suc)
  have "activeEntries es \<noteq> [] \<Longrightarrow>
         length (identifyEnergyTransitions es) < length (activeEntries es)"
    unfolding eq using length_filter_zip_tl [of "activeEntries es" significant] by simp
  moreover have "activeEntries es = [] \<Longrightarrow> identifyEnergyTransitions es = []"
    unfolding eq by simp
  ultimately show ?thesis
    using eq by (simp add: activeEntries_def)
qed

theorem identifyEnergyTransitions_pairs_witness:
  "activeEntries [example_sleep, example_work, example_lunch] \<noteq> []
   \<and> identifyEnergyTransitions [example_sleep, example_work, example_lunch] =
       [\<lparr> time = asc ''09:23'', kind = decrease, difference = - 2,
          from_entry = (asc ''meeting'', 4), to_entry = (asc ''lunch'', 2) \<rparr>]
   \<and> length (identifyEnergyTransitions [example_sleep, example_work, example_lunch])
       < length (activeEntries [example_sleep, example_work, example_lunch])
   \<and> activeEntries [example_sleep] = []
   \<and> identifyEnergyTransitions [example_sleep] = []"
proof -
  let ?es = "[example_sleep, example_work, example_lunch]"
  note t = identifyEnergyTransitions_pairs [of ?es]
  note t' = identifyEnergyTransitions_pairs [of "[example_sleep]"]
  have a: "activeEntries ?es = [example_work, example_lunch]"
    by (simp add: activeEntries_def example_sleep_def example_work_def example_lunch_def
        WORK_def ROUTINE_def RELAX_BED_def)
  have b: "activeEntries [example_sleep] = []"
    by (simp add: activeEntries_def example_sleep_def)
  from t have "identifyEnergyTransitions ?es =
      map transition_of (filter significant (zip (activeEntries ?es) (tl (activeEntries ?es))))"
    by blast
  then have c: "identifyEnergyTransitions ?es =
       [\<lparr> time = asc ''09:23'', kind = decrease, difference = - 2,
          from_entry = (asc ''meeting'', 4), to_entry = (asc ''lunch'', 2) \<rparr>]"
    unfolding a
    by (simp add: transition_of_def significant_def example_work_def example_lunch_def)
  from t have "activeEntries ?es \<noteq> [] \<longrightarrow>
      length (identifyEnergyTransitions ?es) < length (activeEntries ?es)"
    by blast
  with a have d: "length (identifyEnergyTransitions ?es) < length (activeEntries ?es)"
    by simp
  from t' have "activeEntries [example_sleep] = [] \<longrightarrow> identifyEnergyTransitions [example_sleep] = []"
    by blast
  with b have e: "identifyEnergyTransitions [example_sleep] = []"
    by simp
  from a b c d e show ?thesis
    by simp
qed

text \<open>
  C5 as stated fails when no entry remains after the filter: the result and the
  filtered sequence both have length 0.
\<close>

theorem identifyEnergyTransitions_length_counterexample:
  "\<not> length (identifyEnergyTransitions [example_sleep])
       < length (filter (\<lambda>e. category e \<noteq> RELAX_BED) [example_sleep])"
  by (simp add: example_sleep_def)

subsection \<open>Immersion distribution\<close>

lemma distribution_fold_level:
  assumes "\<forall>k\<in>{1,2,3,4,5}. d k \<noteq> None" "d l = Some v" "l \<in> {1,2,3,4,5}"
  shows "foldl distribution_step d es l =
     Some (v + sum_list (map duration (filter (\<lambda>e. immersion e = l) es)))"
  using assms
proof (induction es arbitrary: d v)
  case Nil
  then show ?case by simp
next
  case (Cons e es)
  show ?case
  proof (cases "1 \<le> immersion e \<and> immersion e \<le> 5")
    case True
    then have mem: "immersion e \<in> {1,2,3,4,5}" by auto
    then obtain w where w: "d (immersion e) = Some w" using Cons.prems(1) by blast
    have step: "distribution_step d e = d(immersion e \<mapsto> w + duration e)"
      using True w by (simp add: distribution_step_def)
    have keys: "\<forall>k\<in>{1,2,3,4,5}. (distribution_step d e) k \<noteq> None"
      using Cons.prems(1) step by simp
    show ?thesis
    proof (cases "immersion e = l")
      case True
      with w Cons.prems(2) have "w = v" by simp
      then have "distribution_step d e l = Some (v + duration e)" using step True by simp
      from Cons.IH [OF keys this Cons.prems(3)] True show ?thesis by simp
    next
      case False
      then have "distribution_step d e l = Some v" using step Cons.prems(2) by simp
      from Cons.IH [OF keys this Cons.prems(3)] False show ?thesis by simp
    qed
  next
    case False
    then have step: "distribution_step d e = d" by (auto simp: distribution_step_def)
    from False Cons.prems(3) have "immersion e \<noteq> l" by auto
    with Cons.IH [OF Cons.prems] step show ?thesis by simp
  qed
qed

lemma distribution_fold_dom:
  "dom d = {1,2,3,4,5} \<Longrightarrow> dom (foldl distribution_step d es) = {1,2,3,4,5}"
proof (induction es arbitrary: d)
  case Nil
  then show ?case by simp
next
  case (Cons e es)
  have "dom (distribution_step d e) = {1,2,3,4,5}"
    using Cons.prems by (auto simp: distribution_step_def split: option.splits if_splits)
  from Cons.IH [OF this] show ?case by simp
qed

lemma distribution_init_dom: "dom distribution_init = {1,2,3,4,5}"
  by (auto simp: distribution_init_def split: if_splits)

lemma distribution_level:
  assumes "l \<in> {1,2,3,4,5}"
  shows "calculateImmersionDistribution es l =
     Some (sum_list (map duration (filter (\<lambda>e. immersion e = l) es)))"
proof -
  have "\<forall>k\<in>{1,2,3,4,5}. distribution_init k \<noteq> None"
    by (simp add: distribution_init_def)
  moreover have "distribution_init l = Some 0"
    using assms by (auto simp: distribution_init_def)
  ultimately show ?thesis
    unfolding calculateImmersionDistribution_def
    using distribution_fold_level [of distribution_init l 0 es] assms by simp
qed

text \<open>
  C10. The result of \<open>calculateImmersionDistribution\<close> is defined on exactly the levels
  1 to 5; the value of a level is the sum of the durations of the entries whose immersion
  is that level (0 when there is none); the entries whose immersion is outside 1 to 5
  change nothing.
\<close>

theorem calculateImmersionDistribution_levels:
  "dom (calculateImmersionDistribution es) = {1, 2, 3, 4, 5}
   \<and> (\<forall>l\<in>{1, 2, 3, 4, 5}. calculateImmersionDistribution es l =
          Some (sum_list (map duration (filter (\<lambda>e. immersion e = l) es))))
   \<and> calculateImmersionDistribution (filter (\<lambda>e. 1 \<le> immersion e \<and> immersion e \<le> 5) es)
       = calculateImmersionDistribution es"
proof -
  have d: "dom (calculateImmersionDistribution xs) = {1, 2, 3, 4, 5}" for xs
    unfolding calculateImmersionDistribution_def
    by (rule distribution_fold_dom [OF distribution_init_dom])
  let ?keep = "filter (\<lambda>e. 1 \<le> immersion e \<and> immersion e \<le> 5) es"
  have "calculateImmersionDistribution ?keep l = calculateImmersionDistribution es l" for l
  proof (cases "l \<in> {1, 2, 3, 4, 5}")
    case True
    then have "filter (\<lambda>e. immersion e = l) ?keep = filter (\<lambda>e. immersion e = l) es"
      by (auto intro: filter_cong)
    then show ?thesis
      using distribution_level [OF True, of ?keep] distribution_level [OF True, of es] by simp
  next
    case False
    then have "l \<notin> dom (calculateImmersionDistribution ?keep)"
      and "l \<notin> dom (calculateImmersionDistribution es)"
      using d by blast+
    then show ?thesis by (simp add: domIff)
  qed
  then have "calculateImmersionDistribution ?keep = calculateImmersionDistribution es"
    by (rule ext)
  with d [of es] distribution_level [of _ es] show ?thesis by blast
qed

theorem calculateImmersionDistribution_levels_witness:
  "(4::int) \<in> {1, 2, 3, 4, 5} \<and> (3::int) \<in> {1, 2, 3, 4, 5}
   \<and> calculateImmersionDistribution [example_sleep, example_work, example_lunch] 4 = Some 23
   \<and> calculateImmersionDistribution [example_sleep, example_work, example_lunch] 3 = Some 0"
proof -
  have "\<forall>l\<in>{1, 2, 3, 4, 5}.
          calculateImmersionDistribution [example_sleep, example_work, example_lunch] l =
          Some (sum_list (map duration
             (filter (\<lambda>e. immersion e = l) [example_sleep, example_work, example_lunch])))"
    using calculateImmersionDistribution_levels [of "[example_sleep, example_work, example_lunch]"]
    by blast
  then show ?thesis
    by (simp add: example_sleep_def example_work_def example_lunch_def)
qed

subsection \<open>The rounding to a double\<close>

lemma bitlen_pos: "0 < n \<Longrightarrow> bitlen n = Suc (bitlen (n div 2))"
  by (subst bitlen.simps) simp

lemma bitlen_0: "bitlen 0 = 0"
  by (subst bitlen.simps) simp

lemma bitlen_bounds:
  "0 < n \<Longrightarrow> 2 ^ (bitlen n - 1) \<le> n \<and> n < 2 ^ bitlen n"
proof (induction n rule: bitlen.induct)
  case (1 n)
  show ?case
  proof (cases "n div 2 = 0")
    case True
    with "1.prems" have "n = 1" by (simp add: div_eq_0_iff)
    then show ?thesis by (simp add: bitlen_pos bitlen_0)
  next
    case False
    then have m: "0 < n div 2" by simp
    from "1.prems" have "n \<noteq> 0" by simp
    from "1.IH" [OF this m]
    have lo: "2 ^ (bitlen (n div 2) - 1) \<le> n div 2" and hi: "n div 2 < 2 ^ bitlen (n div 2)"
      by simp_all
    from m have "0 < bitlen (n div 2)" by (simp add: bitlen_pos)
    then have "(2::nat) ^ bitlen (n div 2) = 2 * 2 ^ (bitlen (n div 2) - 1)"
      by (cases "bitlen (n div 2)") simp_all
    with lo have "2 ^ bitlen (n div 2) \<le> 2 * (n div 2)" by simp
    also have "\<dots> \<le> n" by simp
    finally have a: "2 ^ bitlen (n div 2) \<le> n" .
    from hi have "n div 2 + 1 \<le> 2 ^ bitlen (n div 2)" by simp
    then have "2 * (n div 2 + 1) \<le> 2 * 2 ^ bitlen (n div 2)" by simp
    moreover have "n < 2 * (n div 2 + 1)" by presburger
    ultimately have b: "n < 2 * 2 ^ bitlen (n div 2)" by linarith
    from a b "1.prems" show ?thesis by (simp add: bitlen_pos)
  qed
qed

lemma pow2_nat: "pow2 (int k) = 2 ^ k"
  by (simp add: pow2_def)

lemma pow2_neg: "pow2 (- int k) = 1 / 2 ^ k"
  by (cases "k = 0") (simp_all add: pow2_def)

lemma pow2_pos: "0 < pow2 k"
  by (simp add: pow2_def)

lemma pow2_Suc: "pow2 (k + 1) = 2 * pow2 k"
proof (cases "0 \<le> k")
  case True
  then show ?thesis by (simp add: pow2_def nat_add_distrib)
next
  case False
  then have "nat (- k) = Suc (nat (- (k + 1)))" by simp
  then have "(2::rat) ^ nat (- k) = 2 * 2 ^ nat (- (k + 1))" by simp
  with False show ?thesis by (simp add: pow2_def)
qed

lemma binary_exponent_bounds:
  assumes "0 < a"
  shows "pow2 (binary_exponent a) \<le> a \<and> a < pow2 (binary_exponent a + 1)"
proof (cases "1 \<le> a")
  case True
  define n where "n = nat \<lfloor>a\<rfloor>"
  from True have f: "1 \<le> \<lfloor>a\<rfloor>" by simp
  then have n: "0 < n" "int n = \<lfloor>a\<rfloor>" by (simp_all add: n_def)
  from bitlen_bounds [OF n(1)] have lo: "2 ^ (bitlen n - 1) \<le> n" and hi: "n < 2 ^ bitlen n"
    by simp_all
  from n(1) have bl: "0 < bitlen n" by (simp add: bitlen_pos)
  have e: "binary_exponent a = int (bitlen n - 1)"
    using True bl by (simp add: binary_exponent_def n_def)
  have "(2::rat) ^ (bitlen n - 1) \<le> of_nat n"
    using lo by (metis of_nat_le_iff of_nat_numeral of_nat_power)
  also have "of_nat n = (of_int \<lfloor>a\<rfloor> :: rat)" using n(2) by (metis of_int_of_nat_eq)
  also have "\<dots> \<le> a" by simp
  finally have a1: "pow2 (binary_exponent a) \<le> a" by (simp add: e pow2_nat)
  from hi have "int n + 1 \<le> 2 ^ bitlen n" by (metis Suc_leI of_nat_Suc of_nat_le_iff of_nat_numeral of_nat_power add.commute plus_1_eq_Suc)
  then have "\<lfloor>a\<rfloor> + 1 \<le> 2 ^ bitlen n" using n(2) by simp
  then have "(of_int (\<lfloor>a\<rfloor> + 1) :: rat) \<le> of_int (2 ^ bitlen n)" by (rule of_int_le_iff [THEN iffD2])
  moreover have "a < of_int (\<lfloor>a\<rfloor> + 1)" by linarith
  ultimately have "a < 2 ^ bitlen n" by simp
  moreover have "pow2 (binary_exponent a + 1) = 2 ^ bitlen n"
    using bl by (simp add: e pow2_Suc pow2_nat)
  ultimately show ?thesis using a1 by simp
next
  case False
  define b where "b = 1 / a"
  define n where "n = nat (\<lceil>b\<rceil> - 1)"
  from False assms have b1: "1 < b" by (simp add: b_def)
  then have c: "2 \<le> \<lceil>b\<rceil>" by linarith
  then have n: "0 < n" "int n = \<lceil>b\<rceil> - 1" by (simp_all add: n_def)
  from bitlen_bounds [OF n(1)] have lo: "2 ^ (bitlen n - 1) \<le> n" and hi: "n < 2 ^ bitlen n"
    by simp_all
  from n(1) have bl: "0 < bitlen n" by (simp add: bitlen_pos)
  have e: "binary_exponent a = - int (bitlen n)"
    using False by (simp add: binary_exponent_def n_def b_def)
  have "int n + 1 \<le> 2 ^ bitlen n"
    using hi by (metis Suc_leI of_nat_Suc of_nat_le_iff of_nat_numeral of_nat_power add.commute)
  then have "\<lceil>b\<rceil> \<le> 2 ^ bitlen n" using n(2) by simp
  then have le: "(of_int \<lceil>b\<rceil> :: rat) \<le> of_int (2 ^ bitlen n)"
    by (rule of_int_le_iff [THEN iffD2])
  have "b \<le> of_int \<lceil>b\<rceil>" by (rule le_of_int_ceiling)
  also note le
  also have "(of_int (2 ^ bitlen n) :: rat) = 2 ^ bitlen n" by simp
  finally have "b \<le> 2 ^ bitlen n" .
  then have a1: "1 / 2 ^ bitlen n \<le> a"
    using assms by (simp add: b_def field_simps)
  have "(2::rat) ^ (bitlen n - 1) \<le> of_nat n"
    using lo by (metis of_nat_le_iff of_nat_numeral of_nat_power)
  also have "of_nat n = (of_int (\<lceil>b\<rceil> - 1) :: rat)" using n(2) by (metis of_int_of_nat_eq)
  also have "\<dots> < b" by linarith
  finally have "(2::rat) ^ (bitlen n - 1) < 1 / a" by (simp add: b_def)
  then have a2: "a < 1 / 2 ^ (bitlen n - 1)"
    using assms by (simp add: field_simps)
  have "- int (bitlen n) + 1 = - int (bitlen n - 1)" using bl by simp
  then have "pow2 (binary_exponent a + 1) = 1 / 2 ^ (bitlen n - 1)"
    by (simp only: e pow2_neg)
  with a1 a2 show ?thesis by (simp add: e pow2_neg)
qed

lemma round_half_even_near: "\<bar>of_int (round_half_even q) - q\<bar> \<le> 1 / 2"
proof -
  define f where "f = \<lfloor>q\<rfloor>"
  have f: "of_int f \<le> q" "q < of_int f + 1"
    unfolding f_def by linarith+
  have "round_half_even q =
      (if q - of_int f < 1 / 2 then f
       else if q - of_int f > 1 / 2 then f + 1
       else if even f then f else f + 1)"
    by (simp add: round_half_even_def Let_def f_def)
  with f show ?thesis
    by (auto simp: abs_if split: if_splits)
qed


lemma pow2_power_int: "pow2 k = 2 powi k"
  by (simp add: pow2_def power_int_def inverse_eq_divide power_one_over)

lemma pow2_add: "pow2 (j + k) = pow2 j * pow2 k"
  by (simp add: pow2_power_int power_int_add)

text \<open>
  \<open>round_to_double\<close> is a rounding to 53 significant bits: the result has an integer
  mantissa between \<open>2^52\<close> and \<open>2^53\<close> at the exponent of the argument, and is no
  further from the argument than half a unit of the last place.
\<close>

lemma round_to_double_nearest:
  assumes "x \<noteq> 0"
  shows "\<exists>m. round_to_double x = sgn x * of_int m * pow2 (binary_exponent \<bar>x\<bar> - 52)
           \<and> 2 ^ 52 \<le> m \<and> m \<le> 2 ^ 53
           \<and> \<bar>round_to_double x - x\<bar> \<le> pow2 (binary_exponent \<bar>x\<bar> - 53)"
proof -
  define a where "a = \<bar>x\<bar>"
  define e where "e = binary_exponent a"
  define q where "q = a * pow2 (52 - e)"
  define m where "m = round_half_even q"
  define L :: int where "L = 2 ^ 52"
  define U :: int where "U = 2 ^ 53"
  from assms have apos: "0 < a" by (simp add: a_def)
  from binary_exponent_bounds [OF apos] have lo: "pow2 e \<le> a" and hi: "a < pow2 (e + 1)"
    by (simp_all add: e_def)
  have p: "0 < pow2 (52 - e)" by (rule pow2_pos)
  have "pow2 e * pow2 (52 - e) = pow2 52" using pow2_add [of e "52 - e"] by simp
  moreover have "pow2 (e + 1) * pow2 (52 - e) = pow2 53"
    using pow2_add [of "e + 1" "52 - e"] by simp
  moreover have "pow2 52 = of_int L" "pow2 53 = of_int U"
    by (simp_all add: pow2_def L_def U_def)
  ultimately have q: "of_int L \<le> q" "q < of_int U"
    using lo hi p unfolding q_def
    by (metis mult_le_cancel_right_pos, metis mult_less_cancel_right_pos)
  have near: "\<bar>of_int m - q\<bar> \<le> 1 / 2"
    unfolding m_def by (rule round_half_even_near)
  from near have "q - 1 / 2 \<le> of_int m" "of_int m \<le> q + 1 / 2"
    by linarith+
  with q have "(of_int L :: rat) - 1 < of_int m" "(of_int m :: rat) < of_int U + 1"
    by linarith+
  then have "(of_int (L - 1) :: rat) < of_int m" "(of_int m :: rat) < of_int (U + 1)"
    by simp_all
  then have "L - 1 < m" "m < U + 1"
    unfolding of_int_less_iff by simp_all
  then have m: "2 ^ 52 \<le> m" "m \<le> 2 ^ 53"
    unfolding L_def U_def by linarith+
  have r: "round_to_double x = sgn x * of_int m * pow2 (e - 52)"
    using assms by (simp add: round_to_double_def Let_def m_def q_def e_def a_def)
  have "pow2 (52 - e) * pow2 (e - 52) = 1"
    using pow2_add [of "52 - e" "e - 52"] by (simp add: pow2_def)
  then have aq: "a = q * pow2 (e - 52)" by (simp add: q_def mult.assoc)
  have x: "x = sgn x * a" by (simp add: a_def sgn_if)
  have "round_to_double x - x = sgn x * ((of_int m - q) * pow2 (e - 52))"
    by (subst (2) x) (simp add: r aq algebra_simps)
  then have "\<bar>round_to_double x - x\<bar> = \<bar>of_int m - q\<bar> * pow2 (e - 52)"
    using assms pow2_pos [of "e - 52"] by (simp add: abs_mult abs_sgn_eq)
  also have "\<dots> \<le> 1 / 2 * pow2 (e - 52)"
    using near pow2_pos [of "e - 52"] by (simp add: mult_right_mono)
  also have "\<dots> = pow2 (e - 53)"
    using pow2_Suc [of "e - 53"] by simp
  finally have "\<bar>round_to_double x - x\<bar> \<le> pow2 (e - 53)" .
  with r m show ?thesis unfolding e_def a_def by blast
qed

subsection \<open>Productivity score\<close>

lemma floor_rat_numeral: "\<lfloor>(numeral a :: rat) / numeral b\<rfloor> = numeral a div numeral b"
  using floor_divide_of_int_eq [of "numeral a" "numeral b", where ?'a = rat] by simp

lemma ceiling_rat_numeral: "\<lceil>(numeral a :: rat) / numeral b\<rceil> = - (- numeral a div numeral b)"
  using floor_divide_of_int_eq [of "- numeral a" "numeral b", where ?'a = rat]
  by (simp add: ceiling_def)

lemma bitlen_1: "bitlen (Suc 0) = Suc 0"
  by (simp add: bitlen.simps)

lemma bitlen_57: "bitlen 57 = 6"
  by (simp add: bitlen.simps)

lemma bitlen_100: "bitlen 100 = 7"
  by (simp add: bitlen.simps)

lemma round_to_double_1: "round_to_double 1 = 1"
proof -
  have "binary_exponent 1 = 0"
    by (simp add: binary_exponent_def bitlen_1)
  then show ?thesis
    by (simp add: round_to_double_def pow2_def round_half_even_def Let_def)
qed

lemma round_to_double_100: "round_to_double 100 = 100"
proof -
  have "binary_exponent 100 = 6"
    by (simp add: binary_exponent_def bitlen_100)
  then show ?thesis
    by (simp add: round_to_double_def pow2_def round_half_even_def Let_def floor_rat_numeral)
qed

text \<open>The quotient 23 / 40 and its product with 100, rounded as the machine does.\<close>

lemma round_to_double_23_40:
  "round_to_double (23 / 40) = 2589569785738035 / 4503599627370496"
proof -
  have "binary_exponent (23 / 40) = - 1"
    by (simp add: binary_exponent_def ceiling_rat_numeral bitlen_1)
  then show ?thesis
    by (simp add: round_to_double_def pow2_def round_half_even_def Let_def floor_rat_numeral)
qed

lemma round_to_double_product:
  "round_to_double (64739244643450875 / 1125899906842624) = 8092405580431359 / 140737488355328"
proof -
  have "binary_exponent (64739244643450875 / 1125899906842624) = 5"
    by (simp add: binary_exponent_def floor_rat_numeral bitlen_57)
  then show ?thesis
    by (simp add: round_to_double_def pow2_def round_half_even_def Let_def floor_rat_numeral)
qed

lemma machine_score_23_40:
  "Math_round (round_to_double (round_to_double (23 / 40) * 100)) = 57"
  by (simp add: round_to_double_23_40 round_to_double_product Math_round_def floor_rat_numeral)

lemma productivity_step_sums:
  "productivity_step (p, t) e =
     (p + productiveHighImmersionMinutes [e], t + totalActiveMinutes [e])"
  by (simp add: productivity_step_def productiveCategories_def Let_def
      productiveHighImmersionMinutes_def totalActiveMinutes_def)

lemma sums_Cons:
  "productiveHighImmersionMinutes (e # es) =
     productiveHighImmersionMinutes [e] + productiveHighImmersionMinutes es"
  "totalActiveMinutes (e # es) = totalActiveMinutes [e] + totalActiveMinutes es"
  by (simp_all add: productiveHighImmersionMinutes_def totalActiveMinutes_def)

lemma productivity_fold:
  "foldl productivity_step (p, t) es =
     (p + productiveHighImmersionMinutes es, t + totalActiveMinutes es)"
proof (induction es arbitrary: p t)
  case Nil
  show ?case by (simp add: productiveHighImmersionMinutes_def totalActiveMinutes_def)
next
  case (Cons e es)
  have "foldl productivity_step (p, t) (e # es) =
      foldl productivity_step
        (p + productiveHighImmersionMinutes [e], t + totalActiveMinutes [e]) es"
    by (simp add: productivity_step_sums)
  also have "\<dots> = (p + productiveHighImmersionMinutes [e] + productiveHighImmersionMinutes es,
                    t + totalActiveMinutes [e] + totalActiveMinutes es)"
    by (rule Cons.IH)
  also have "\<dots> = (p + productiveHighImmersionMinutes (e # es), t + totalActiveMinutes (e # es))"
    by (simp add: sums_Cons [of e es])
  finally show ?case .
qed

lemma score_formula:
  "calculateProductivityScore es =
     (if totalActiveMinutes es = 0 then 0
      else Math_round (round_to_double
             (round_to_double (of_int (productiveHighImmersionMinutes es)
                               / of_int (totalActiveMinutes es)) * 100)))"
  by (simp add: calculateProductivityScore_def productivity_fold)

lemma all_productive_sums:
  assumes "\<forall>e\<in>set es. category e \<noteq> RELAX_BED \<longrightarrow>
             (category e = WORK \<or> category e = DEVELOPMENT) \<and> immersion e \<ge> 4"
  shows "productiveHighImmersionMinutes es = totalActiveMinutes es"
proof -
  have "filter (\<lambda>e. category e \<noteq> RELAX_BED \<and> (category e = WORK \<or> category e = DEVELOPMENT)
                    \<and> immersion e \<ge> 4) es = filter (\<lambda>e. category e \<noteq> RELAX_BED) es"
    using assms by (intro filter_cong) auto
  then show ?thesis
    by (simp add: productiveHighImmersionMinutes_def totalActiveMinutes_def)
qed

text \<open>
  C6 (as amended). The score is 0 when the non-resting durations sum to 0. Otherwise it
  is \<open>Math.round\<close> of the double-precision product \<open>(p / t) * 100\<close>, where \<open>t\<close> sums
  the durations of the non-resting entries and \<open>p\<close> those of the non-resting entries in
  the work or development category with immersion at least 4; both the quotient and the
  product are rounded to a double. It is exactly 100 when \<open>t\<close> is not 0 and every
  non-resting entry is in a productive category with immersion at least 4.
\<close>

theorem calculateProductivityScore_value:
  "calculateProductivityScore es =
     (if totalActiveMinutes es = 0 then 0
      else Math_round (round_to_double
             (round_to_double (of_int (productiveHighImmersionMinutes es)
                               / of_int (totalActiveMinutes es)) * 100)))
   \<and> (totalActiveMinutes es = 0 \<longrightarrow> calculateProductivityScore es = 0)
   \<and> (totalActiveMinutes es \<noteq> 0
        \<and> (\<forall>e\<in>set es. category e \<noteq> RELAX_BED \<longrightarrow>
              (category e = WORK \<or> category e = DEVELOPMENT) \<and> immersion e \<ge> 4)
        \<longrightarrow> calculateProductivityScore es = 100)"
proof -
  have "calculateProductivityScore es = 100"
    if nz: "totalActiveMinutes es \<noteq> 0"
      and all: "\<forall>e\<in>set es. category e \<noteq> RELAX_BED \<longrightarrow>
              (category e = WORK \<or> category e = DEVELOPMENT) \<and> immersion e \<ge> 4"
  proof -
    have "productiveHighImmersionMinutes es = totalActiveMinutes es"
      using all by (rule all_productive_sums)
    then have "(of_int (productiveHighImmersionMinutes es) :: rat)
                 / of_int (totalActiveMinutes es) = 1"
      using nz by simp
    then show ?thesis
      using nz
      by (simp add: score_formula round_to_double_1 round_to_double_100 Math_round_def
          floor_rat_numeral)
  qed
  then show ?thesis
    using score_formula [of es] by simp
qed

theorem calculateProductivityScore_value_witness:
  "totalActiveMinutes [example_sleep] = 0
   \<and> calculateProductivityScore [example_sleep] = 0
   \<and> totalActiveMinutes [example_sleep, example_work] \<noteq> 0
   \<and> category example_sleep = RELAX_BED
   \<and> category example_work = WORK \<and> immersion example_work \<ge> 4
   \<and> calculateProductivityScore [example_sleep, example_work] = 100"
proof -
  have a: "totalActiveMinutes [example_sleep] = 0"
    by (simp add: totalActiveMinutes_def example_sleep_def)
  have b: "totalActiveMinutes [example_sleep, example_work] \<noteq> 0"
    by (simp add: totalActiveMinutes_def example_sleep_def example_work_def WORK_def RELAX_BED_def)
  have c: "\<forall>e\<in>set [example_sleep, example_work]. category e \<noteq> RELAX_BED \<longrightarrow>
              (category e = WORK \<or> category e = DEVELOPMENT) \<and> immersion e \<ge> 4"
    by (simp add: example_sleep_def example_work_def)
  from a calculateProductivityScore_value [of "[example_sleep]"]
  have "calculateProductivityScore [example_sleep] = 0" by blast
  moreover from b c calculateProductivityScore_value [of "[example_sleep, example_work]"]
  have "calculateProductivityScore [example_sleep, example_work] = 100" by blast
  ultimately show ?thesis
    using a b by (simp add: example_sleep_def example_work_def)
qed

lemma example_sums:
  "productiveHighImmersionMinutes [example_work, example_lunch] = 23"
  "totalActiveMinutes [example_work, example_lunch] = 40"
  by (simp_all add: productiveHighImmersionMinutes_def totalActiveMinutes_def
      example_work_def example_lunch_def WORK_def ROUTINE_def RELAX_BED_def)

text \<open>
  C6 as stated fails where the exact value \<open>100 * p / t\<close> lies half-way between two
  integers and the rounded quotient is below the exact one: for 23 productive minutes
  out of 40 the exact value is 57.5, which rounds to 58, and the source returns 57.
\<close>

theorem calculateProductivityScore_round_counterexample:
  "calculateProductivityScore [example_work, example_lunch] = 57
   \<and> round (100 * of_int (productiveHighImmersionMinutes [example_work, example_lunch])
             / of_int (totalActiveMinutes [example_work, example_lunch]) :: rat) = 58"
proof -
  have "calculateProductivityScore [example_work, example_lunch] = 57"
    by (simp add: score_formula example_sums machine_score_23_40)
  moreover have "round (100 * 23 / 40 :: rat) = 58"
    by (simp add: round_def floor_rat_numeral)
  ultimately show ?thesis
    by (simp add: example_sums)
qed

section \<open>Properties of the parser\<close>

subsection \<open>Times and durations\<close>

lemma digit_not_space: "is_digit c \<Longrightarrow> \<not> is_space c"
  by (auto simp: is_digit_def is_space_def)

lemma digit_not_colon: "is_digit c \<Longrightarrow> c \<noteq> 0x3A"
  by (auto simp: is_digit_def)

lemma digit_value_range: "is_digit c \<Longrightarrow> 0 \<le> digit_value c \<and> digit_value c \<le> 9"
  by (auto simp: is_digit_def digit_value_def)

lemma is_hhmmE:
  assumes "is_hhmm s"
  obtains a b d e where "s = [a, b, 0x3A, d, e]"
    and "is_digit a" "is_digit b" "is_digit d" "is_digit e"
proof -
  from assms have len: "length s = 5" by (simp add: is_hhmm_def)
  then obtain a b c d e where s: "s = [a, b, c, d, e]"
    by (auto simp: length_Suc_conv eval_nat_numeral)
  with assms have "c = 0x3A" "is_digit a" "is_digit b" "is_digit d" "is_digit e"
    by (simp_all add: is_hhmm_def)
  with s that show thesis by blast
qed

lemma is_hhmm_literal:
  "is_hhmm [a, b, c, d, e] \<longleftrightarrow>
     is_digit a \<and> is_digit b \<and> c = 0x3A \<and> is_digit d \<and> is_digit e"
  by (simp add: is_hhmm_def)

lemma trim_digits: "is_digit a \<Longrightarrow> is_digit b \<Longrightarrow> trim [a, b] = [a, b]"
  by (simp add: trim_def digit_not_space)

lemma Number_two_digits:
  "is_digit a \<Longrightarrow> is_digit b \<Longrightarrow> Number [a, b] = Some (10 * digit_value a + digit_value b)"
  by (simp add: Number_def trim_digits decimal_value_def)

lemma split_hhmm:
  "is_digit a \<Longrightarrow> is_digit b \<Longrightarrow> is_digit d \<Longrightarrow> is_digit e \<Longrightarrow>
     split_on 0x3A [a, b, 0x3A, d, e] = [[a, b], [d, e]]"
  using digit_not_colon [of a] digit_not_colon [of b] digit_not_colon [of d]
    digit_not_colon [of e]
  by simp

lemma hour_and_minute_hhmm:
  assumes "is_hhmm s"
  shows "hour_and_minute s = Some (hour_of s, minute_of s)"
proof -
  from assms obtain a b d e where s: "s = [a, b, 0x3A, d, e]"
    and dig: "is_digit a" "is_digit b" "is_digit d" "is_digit e"
    by (rule is_hhmmE)
  have sp: "split_on 0x3A s = [[a, b], [d, e]]"
    unfolding s by (rule split_hhmm [OF dig])
  show ?thesis
    unfolding hour_and_minute_def sp
    by (simp add: Number_two_digits dig hour_of_def minute_of_def s)
qed

lemma calculateDuration_hhmm:
  assumes "is_hhmm s" "is_hhmm e"
  shows "calculateDuration s e =
     Some (let minutes = minutes_since_midnight e - minutes_since_midnight s
           in if minutes < 0 then minutes + 1440 else minutes)"
  by (simp add: calculateDuration_def hour_and_minute_hhmm [OF assms(1)]
      hour_and_minute_hhmm [OF assms(2)] minutes_since_midnight_def
      MINUTES_PER_HOUR_def MINUTES_PER_DAY_def Let_def)

lemma valid_time_range:
  assumes "valid_time s"
  shows "0 \<le> minutes_since_midnight s" "minutes_since_midnight s \<le> 1439"
proof -
  from assms have h: "is_hhmm s" by (simp add: valid_time_def)
  then obtain a b d e where s: "s = [a, b, 0x3A, d, e]"
    and dig: "is_digit a" "is_digit b" "is_digit d" "is_digit e"
    by (rule is_hhmmE)
  have "0 \<le> hour_of s" "0 \<le> minute_of s"
    using digit_value_range [OF dig(1)] digit_value_range [OF dig(2)]
      digit_value_range [OF dig(3)] digit_value_range [OF dig(4)]
    by (simp_all add: hour_of_def minute_of_def s)
  moreover from assms have "hour_of s \<le> 23" "minute_of s \<le> 59"
    by (simp_all add: valid_time_def)
  ultimately show "0 \<le> minutes_since_midnight s" "minutes_since_midnight s \<le> 1439"
    by (simp_all add: minutes_since_midnight_def)
qed

text \<open>
  C2. For valid times \<open>calculateDuration\<close> returns
  \<open>(end_minutes - start_minutes + 1440) mod 1440\<close>, which lies between 0 and 1439; for
  equal times it returns 0.
\<close>

theorem calculateDuration_valid:
  assumes "valid_time s" "valid_time e"
  shows "calculateDuration s e =
           Some ((minutes_since_midnight e - minutes_since_midnight s + 1440) mod 1440)
         \<and> 0 \<le> (minutes_since_midnight e - minutes_since_midnight s + 1440) mod 1440
         \<and> (minutes_since_midnight e - minutes_since_midnight s + 1440) mod 1440 \<le> 1439
         \<and> calculateDuration s s = Some 0"
proof -
  from assms have h: "is_hhmm s" "is_hhmm e" by (simp_all add: valid_time_def)
  let ?m = "minutes_since_midnight e - minutes_since_midnight s"
  have range: "- 1439 \<le> ?m" "?m \<le> 1439"
    using valid_time_range [OF assms(1)] valid_time_range [OF assms(2)] by simp_all
  have "(if ?m < 0 then ?m + 1440 else ?m) = (?m + 1440) mod 1440"
  proof (cases "?m < 0")
    case True
    then have "(?m + 1440) mod 1440 = ?m + 1440"
      using range by (intro mod_pos_pos_trivial) simp_all
    with True show ?thesis by simp
  next
    case False
    then have "(?m + 1440) mod 1440 = ?m"
      using range by (simp add: mod_pos_pos_trivial)
    with False show ?thesis by simp
  qed
  then have "calculateDuration s e = Some ((?m + 1440) mod 1440)"
    by (simp add: calculateDuration_hhmm [OF h] Let_def)
  moreover have "calculateDuration s s = Some 0"
    by (simp add: calculateDuration_hhmm [OF h(1) h(1)])
  ultimately show ?thesis by simp
qed

theorem calculateDuration_valid_witness:
  "valid_time (asc ''23:30'') \<and> valid_time (asc ''00:15'')
   \<and> calculateDuration (asc ''23:30'') (asc ''00:15'') = Some 45
   \<and> calculateDuration (asc ''23:30'') (asc ''23:30'') = Some 0"
proof -
  have v: "valid_time (asc ''23:30'')" "valid_time (asc ''00:15'')"
    by (simp_all add: valid_time_def is_hhmm_def is_digit_def hour_of_def minute_of_def
        digit_value_def asc_def)
  have m: "minutes_since_midnight (asc ''23:30'') = 1410"
    "minutes_since_midnight (asc ''00:15'') = 15"
    by (simp_all add: minutes_since_midnight_def hour_of_def minute_of_def digit_value_def asc_def)
  from calculateDuration_valid [OF v] m v show ?thesis by simp
qed

subsection \<open>Gap filling\<close>

lemma midnight_literal: "midnight = [0x30, 0x30, 0x3A, 0x30, 0x30]"
  by (simp add: midnight_def asc_def)

lemma midnight_hhmm: "is_hhmm midnight"
  by (simp add: midnight_literal is_hhmm_def is_digit_def)

lemma midnight_least:
  assumes "is_hhmm t"
  shows "midnight \<le> t"
proof -
  from assms obtain a b d e where t: "t = [a, b, 0x3A, d, e]"
    and dig: "is_digit a" "is_digit b" "is_digit d" "is_digit e"
    by (rule is_hhmmE)
  from dig have "0x30 \<le> a" "0x30 \<le> b" "0x30 \<le> d" "0x30 \<le> e"
    by (simp_all add: is_digit_def)
  then show ?thesis
    unfolding t midnight_literal by auto
qed

lemma minutes_midnight: "minutes_since_midnight midnight = 0"
  by (simp add: minutes_since_midnight_def hour_of_def minute_of_def midnight_literal
      digit_value_def)

lemma minutes_nonneg:
  assumes "is_hhmm t"
  shows "0 \<le> minutes_since_midnight t"
proof -
  from assms obtain a b d e where t: "t = [a, b, 0x3A, d, e]"
    and dig: "is_digit a" "is_digit b" "is_digit d" "is_digit e"
    by (rule is_hhmmE)
  show ?thesis
    using digit_value_range [OF dig(1)] digit_value_range [OF dig(2)]
      digit_value_range [OF dig(3)] digit_value_range [OF dig(4)]
    by (simp add: minutes_since_midnight_def hour_of_def minute_of_def t)
qed

lemma calculateDuration_from_midnight:
  assumes "is_hhmm t"
  shows "calculateDuration midnight t = Some (minutes_since_midnight t)"
  using minutes_nonneg [OF assms]
  by (simp add: calculateDuration_hhmm [OF midnight_hhmm assms] minutes_midnight Let_def)

lemma addSleep_sorted_at_midnight:
  assumes "xs \<noteq> []" "sorted (map start xs)" "start (hd xs) = midnight"
  shows "addSleepPeriodIfMissing xs = Some xs"
proof -
  from assms(2) have "sort_key start xs = xs" by (rule sort_key_id_if_sorted)
  moreover from assms(1) obtain first others where "xs = first # others" by (cases xs) auto
  ultimately show ?thesis
    using assms(3) by (simp add: addSleepPeriodIfMissing_def)
qed

text \<open>
  C3. For a non-empty list of entries whose start times have the format \<open>HH:MM\<close>,
  \<open>addSleepPeriodIfMissing\<close> returns the list sorted by start (a stable sort: the same
  entries, those of equal start in their former order); when the earliest start is not
  \<open>00:00\<close> it puts in front exactly one entry with id 0, start \<open>00:00\<close>, the earliest
  start as its end, immersion 0, the resting category and the duration that
  \<open>calculateDuration\<close> gives. The result is sorted by start, and applying the function to
  it again returns it unchanged.
\<close>

theorem addSleepPeriodIfMissing_spec:
  assumes "es \<noteq> []" and "\<forall>e\<in>set es. is_hhmm (start e)"
  shows "\<exists>r. addSleepPeriodIfMissing es = Some r
           \<and> sorted (map start (sort_key start es))
           \<and> mset (sort_key start es) = mset es
           \<and> (\<forall>k. filter (\<lambda>e. start e = k) (sort_key start es) = filter (\<lambda>e. start e = k) es)
           \<and> (start (hd (sort_key start es)) = midnight \<longrightarrow> r = sort_key start es)
           \<and> (start (hd (sort_key start es)) \<noteq> midnight \<longrightarrow>
                (\<exists>d. calculateDuration midnight (start (hd (sort_key start es))) = Some d
                   \<and> r = \<lparr> entry_id = 0, start = midnight,
                           end_time = start (hd (sort_key start es)),
                           content = sleep_placeholder, immersion = 0, duration = d,
                           category = RELAX_BED \<rparr> # sort_key start es))
           \<and> sorted (map start r)
           \<and> addSleepPeriodIfMissing r = Some r"
proof -
  let ?s = "sort_key start es"
  have srt: "sorted (map start ?s)" by (rule sorted_sort_key)
  have ms: "mset ?s = mset es" by simp
  have stable: "\<forall>k. filter (\<lambda>e. start e = k) ?s = filter (\<lambda>e. start e = k) es"
    by (simp add: sort_key_stable)
  from assms(1) have "?s \<noteq> []" by (metis length_sort length_0_conv)
  then obtain first others where s: "?s = first # others" by (cases ?s) auto
  have "first \<in> set es" using s by (metis list.set_intros(1) set_sort)
  with assms(2) have hh: "is_hhmm (start first)" by blast
  show ?thesis
  proof (cases "start first = midnight")
    case True
    have "addSleepPeriodIfMissing es = Some ?s"
      using assms(1) s True by (simp add: addSleepPeriodIfMissing_def)
    moreover have "addSleepPeriodIfMissing ?s = Some ?s"
      using srt s True by (intro addSleep_sorted_at_midnight) simp_all
    ultimately show ?thesis
      using srt ms stable s True by simp
  next
    case False
    let ?d = "minutes_since_midnight (start first)"
    let ?sleep = "\<lparr> entry_id = 0, start = midnight, end_time = start first,
        content = sleep_placeholder, immersion = 0, duration = ?d, category = RELAX_BED \<rparr>"
    have d: "calculateDuration midnight (start first) = Some ?d"
      by (rule calculateDuration_from_midnight [OF hh])
    have res: "addSleepPeriodIfMissing es = Some (?sleep # ?s)"
      using assms(1) s False d by (simp add: addSleepPeriodIfMissing_def)
    have "\<forall>x\<in>set (map start ?s). midnight \<le> x"
      using assms(2) midnight_least by auto
    with srt have srt': "sorted (map start (?sleep # ?s))" by simp
    have "addSleepPeriodIfMissing (?sleep # ?s) = Some (?sleep # ?s)"
      using srt' by (intro addSleep_sorted_at_midnight) simp_all
    with res srt' srt ms stable d s False show ?thesis by simp
  qed
qed


lemma example_gap_fill:
  "addSleepPeriodIfMissing [example_lunch, example_work] =
     Some [example_gap, example_work, example_lunch]"
proof -
  have srt: "sort_key start [example_lunch, example_work] = [example_work, example_lunch]"
    by (simp add: example_lunch_def example_work_def asc_def)
  have d: "calculateDuration midnight (asc ''09:00'') = Some 540"
    using calculateDuration_from_midnight [of "asc ''09:00''"]
    by (simp add: is_hhmm_def is_digit_def asc_def minutes_since_midnight_def hour_of_def
        minute_of_def digit_value_def)
  show ?thesis
    unfolding addSleepPeriodIfMissing_def srt
    using d by (simp add: example_work_def example_gap_def midnight_def asc_def)
qed

lemma example_starts:
  "is_hhmm (start example_lunch)" "is_hhmm (start example_work)" "is_hhmm (start example_sleep)"
  "start example_sleep = midnight"
  by (simp_all add: example_lunch_def example_work_def example_sleep_def is_hhmm_def
      is_digit_def midnight_def asc_def)

theorem addSleepPeriodIfMissing_spec_witness:
  "[example_lunch, example_work] \<noteq> []
   \<and> is_hhmm (start example_lunch) \<and> is_hhmm (start example_work)
   \<and> addSleepPeriodIfMissing [example_lunch, example_work] =
       Some [example_gap, example_work, example_lunch]
   \<and> addSleepPeriodIfMissing [example_gap, example_work, example_lunch] =
       Some [example_gap, example_work, example_lunch]
   \<and> [example_sleep] \<noteq> [] \<and> is_hhmm (start example_sleep)
   \<and> start (hd (sort_key start [example_sleep])) = midnight
   \<and> addSleepPeriodIfMissing [example_sleep] = Some [example_sleep]"
proof -
  let ?es = "[example_lunch, example_work]"
  have ne: "?es \<noteq> []" by simp
  have hh: "\<forall>e\<in>set ?es. is_hhmm (start e)"
    by (simp add: example_starts)
  from addSleepPeriodIfMissing_spec [OF ne hh]
  obtain r where "addSleepPeriodIfMissing ?es = Some r" "addSleepPeriodIfMissing r = Some r"
    by blast
  with example_gap_fill
  have a: "addSleepPeriodIfMissing [example_gap, example_work, example_lunch] =
       Some [example_gap, example_work, example_lunch]"
    by simp
  have ne': "[example_sleep] \<noteq> []" by simp
  have hh': "\<forall>e\<in>set [example_sleep]. is_hhmm (start e)"
    by (simp add: example_starts(3))
  have m: "start (hd (sort_key start [example_sleep])) = midnight"
    by (simp add: example_starts)
  from addSleepPeriodIfMissing_spec [OF ne' hh']
  obtain r' where "addSleepPeriodIfMissing [example_sleep] = Some r'"
    "start (hd (sort_key start [example_sleep])) = midnight \<longrightarrow>
       r' = sort_key start [example_sleep]"
    by blast
  with m have b: "addSleepPeriodIfMissing [example_sleep] = Some [example_sleep]"
    by simp
  from a b m example_gap_fill example_starts(1-3) show ?thesis
    by blast
qed

subsection \<open>Lines and identifiers\<close>

lemma hhmm_prefix_hhmm: "hhmm_prefix s = Some (g, r) \<Longrightarrow> is_hhmm g"
  by (auto simp: hhmm_prefix_def is_hhmm_def split: list.splits if_splits)

lemma time_at_hhmm: "time_at s = Some (g1, g2, n) \<Longrightarrow> is_hhmm g1 \<and> is_hhmm g2"
  by (auto simp: time_at_def split: option.splits list.splits if_splits prod.splits
      dest: hhmm_prefix_hhmm)

lemma TIME_HEADER_hhmm:
  "TIME_HEADER s = Some (i, m, g1, g2) \<Longrightarrow> is_hhmm g1 \<and> is_hhmm g2"
proof (induction s arbitrary: i m)
  case Nil
  then show ?case by simp
next
  case (Cons c cs)
  show ?case
  proof (cases "time_at (c # cs)")
    case None
    with Cons.prems obtain j where "TIME_HEADER cs = Some (j, m, g1, g2)"
      by (auto split: option.splits prod.splits)
    then show ?thesis by (rule Cons.IH)
  next
    case (Some t)
    with Cons.prems obtain n where "time_at (c # cs) = Some (g1, g2, n)"
      by (cases t) auto
    then show ?thesis by (rule time_at_hhmm)
  qed
qed

lemma parseTimeEntry_defined:
  assumes "is_hhmm g1" "is_hhmm g2"
  shows "\<exists>e. parseTimeEntry line (pos, m, g1, g2) index = Some e
           \<and> entry_id e = int index + 1 \<and> start e = g1 \<and> end_time e = g2
           \<and> category e = ROUTINE \<and> calculateDuration g1 g2 = Some (duration e)"
  by (simp add: parseTimeEntry_def calculateDuration_hhmm [OF assms] Let_def)

lemma parse_line_entries:
  "entries (parse_line acc line index) = entries acc @ line_entries line index"
  by (simp add: parse_line_def line_entries_def empty_log_def Let_def split: option.splits)

lemma line_entries_cases:
  "line_entries line index = []
   \<or> (\<exists>e. line_entries line index = [e]
          \<and> entry_id e = int index + 1 \<and> category e = ROUTINE
          \<and> is_hhmm (start e) \<and> is_hhmm (end_time e)
          \<and> calculateDuration (start e) (end_time e) = Some (duration e))"
proof (cases "TIME_HEADER (trim line)")
  case None
  then show ?thesis
    by (simp add: line_entries_def parse_line_def empty_log_def Let_def split: option.splits)
next
  case (Some t)
  obtain pos m g1 g2 where t: "t = (pos, m, g1, g2)" by (cases t) auto
  from Some have hh: "is_hhmm g1" "is_hhmm g2"
    using TIME_HEADER_hhmm [of "trim line" pos m g1 g2] by (simp_all add: t)
  from parseTimeEntry_defined [OF hh, of "trim line" pos m index]
  obtain e where e: "parseTimeEntry (trim line) (pos, m, g1, g2) index = Some e"
    "entry_id e = int index + 1" "start e = g1" "end_time e = g2" "category e = ROUTINE"
    "calculateDuration g1 g2 = Some (duration e)"
    by blast
  have "line_entries line index = [] \<or> line_entries line index = [e]"
    using Some e(1)
    by (simp add: line_entries_def parse_line_def empty_log_def Let_def t split: option.splits)
  with e hh show ?thesis by auto
qed

lemma line_entries_id:
  "e \<in> set (line_entries line index) \<Longrightarrow> entry_id e = int index + 1"
  using line_entries_cases [of line index] by auto

lemma forEach_line_entries:
  "entries (forEach_line acc k ls) =
     entries acc @ concat (map (\<lambda>(i, l). line_entries l i) (zip [k..<k + length ls] ls))"
proof (induction ls arbitrary: acc k)
  case Nil
  show ?case by simp
next
  case (Cons l ls)
  have "[k..<k + length (l # ls)] = k # [Suc k..<Suc k + length ls]"
    by (subst upt_rec) simp
  then show ?case
    by (simp add: Cons.IH parse_line_entries)
qed

lemma parseLogText_entries:
  "entries (parseLogText rawText) =
     concat (map (\<lambda>(i, l). line_entries l i)
       (zip [0..<length (split_on 0xA rawText)] (split_on 0xA rawText)))"
  by (simp add: parseLogText_def forEach_line_entries empty_log_def)

lemma parseLogText_entry_line:
  assumes "e \<in> set (entries (parseLogText rawText))"
  shows "\<exists>i<length (split_on 0xA rawText). e \<in> set (line_entries (split_on 0xA rawText ! i) i)"
proof -
  let ?ls = "split_on 0xA rawText"
  from assms obtain p where p: "p \<in> set (zip [0..<length ?ls] ?ls)"
    and e: "e \<in> set ((\<lambda>(i, l). line_entries l i) p)"
    unfolding parseLogText_entries by auto
  obtain i l where il: "p = (i, l)" by (cases p) auto
  from p il obtain n where n: "n < length ?ls" "[0..<length ?ls] ! n = i" "?ls ! n = l"
    by (auto simp: in_set_zip)
  then have "i = n" by simp
  with n e il show ?thesis by auto
qed

lemma parseLogText_entry_format:
  assumes "e \<in> set (entries (parseLogText rawText))"
  shows "is_hhmm (start e) \<and> is_hhmm (end_time e)
         \<and> calculateDuration (start e) (end_time e) = Some (duration e)"
proof -
  from parseLogText_entry_line [OF assms]
  obtain i where "e \<in> set (line_entries (split_on 0xA rawText ! i) i)" by blast
  then show ?thesis
    using line_entries_cases [of "split_on 0xA rawText ! i" i] by auto
qed

lemma apply_categories_ids: "map entry_id (apply_categories es cs) = map entry_id es"
  by (induction es cs rule: apply_categories.induct) simp_all

text \<open>
  C9 (as amended). The entries of \<open>parseLogText\<close> are, in the order of the lines, the
  entries of the single lines, and an entry made from the line at the 0-based position
  \<open>i\<close> has the id \<open>i + 1\<close>, the 1-based number of its line. So every id the parser
  assigns is positive, never 0, and neither categorization changes an id.
\<close>

theorem parseLogText_ids:
  "entries (parseLogText rawText) =
     concat (map (\<lambda>(i, l). line_entries l i)
       (zip [0..<length (split_on 0xA rawText)] (split_on 0xA rawText)))
   \<and> (\<forall>e\<in>set (entries (parseLogText rawText)).
         0 < entry_id e
         \<and> (\<exists>i<length (split_on 0xA rawText).
               e \<in> set (line_entries (split_on 0xA rawText ! i) i) \<and> entry_id e = int i + 1))
   \<and> (\<forall>line i. \<forall>e\<in>set (line_entries line i). entry_id e = int i + 1)
   \<and> map entry_id (categorizeWithKeywords es) = map entry_id es
   \<and> map entry_id (snd (categorizeWithAI es response)) = map entry_id es"
proof -
  have "0 < entry_id e
      \<and> (\<exists>i<length (split_on 0xA rawText).
            e \<in> set (line_entries (split_on 0xA rawText ! i) i) \<and> entry_id e = int i + 1)"
    if "e \<in> set (entries (parseLogText rawText))" for e
  proof -
    from parseLogText_entry_line [OF that]
    obtain i where i: "i < length (split_on 0xA rawText)"
      "e \<in> set (line_entries (split_on 0xA rawText ! i) i)"
      by blast
    from line_entries_id [OF i(2)] have "entry_id e = int i + 1" .
    with i show ?thesis by auto
  qed
  moreover have "map entry_id (categorizeWithKeywords es) = map entry_id es"
    by (simp add: categorizeWithKeywords_def comp_def)
  moreover have "map entry_id (snd (categorizeWithAI es response)) = map entry_id es"
    by (simp add: categorizeWithAI_def apply_categories_ids split: ai_response.splits)
  ultimately show ?thesis
    using parseLogText_entries [of rawText] line_entries_id by blast
qed


subsection \<open>The example line, step by step\<close>

lemma example_line_literal:
  "example_line =
     [0x30, 0x39, 0x3A, 0x30, 0x30, 0x7E, 0x30, 0x39, 0x3A, 0x30, 0x30, 0x20, 0x78, 0x7C]"
  by (simp add: example_line_def asc_def)

lemma nine_literal: "asc ''09:00'' = [0x30, 0x39, 0x3A, 0x30, 0x30]"
  by (simp add: asc_def)

lemma example_trim: "trim example_line = example_line"
  by (simp add: example_line_literal trim_def is_space_def)

lemma example_no_marker: "THOUGHT example_line = None" "ACTION example_line = None"
  by (simp_all add: example_line_literal THOUGHT_def ACTION_def marker_match_def is_space_def)

lemma example_first_time:
  "hhmm_prefix example_line =
     Some (asc ''09:00'', [0x7E, 0x30, 0x39, 0x3A, 0x30, 0x30, 0x20, 0x78, 0x7C])"
  by (simp add: example_line_literal nine_literal hhmm_prefix_def is_digit_def)

lemma example_second_time:
  "hhmm_prefix [0x30, 0x39, 0x3A, 0x30, 0x30, 0x20, 0x78, 0x7C] =
     Some (asc ''09:00'', [0x20, 0x78, 0x7C])"
  by (simp add: nine_literal hhmm_prefix_def is_digit_def)

lemma example_time_at: "time_at example_line = Some (asc ''09:00'', asc ''09:00'', 11)"
  unfolding time_at_def example_first_time
  by (simp add: is_space_def example_second_time example_line_literal)

lemma example_TIME_HEADER:
  "TIME_HEADER example_line =
     Some (0, [0x30, 0x39, 0x3A, 0x30, 0x30, 0x7E, 0x30, 0x39, 0x3A, 0x30, 0x30],
           asc ''09:00'', asc ''09:00'')"
proof -
  note t = example_time_at [unfolded example_line_literal]
  show ?thesis
    unfolding example_line_literal
    by (subst TIME_HEADER.simps) (simp add: t)
qed

lemma example_rest:
  "substring example_line
     (indexOf example_line [0x30, 0x39, 0x3A, 0x30, 0x30, 0x7E, 0x30, 0x39, 0x3A, 0x30, 0x30]
      + int (length [0x30, 0x39, 0x3A, 0x30, 0x30, 0x7E, 0x30, 0x39, 0x3A, 0x30, 0x30 :: nat]))
   = [0x20, 0x78, 0x7C]"
  by (simp add: example_line_literal substring_def)

lemma example_bars: "BARS [0x20, 0x78, 0x7C] = Some [0x7C]"
  by (simp add: BARS_def is_bar_def)

lemma example_content: "trim (remove_first [0x20, 0x78, 0x7C] [0x7C]) = asc ''x''"
  by (simp add: remove_first_def trim_def is_space_def asc_def)

lemma example_duration: "calculateDuration (asc ''09:00'') (asc ''09:00'') = Some 0"
proof -
  have "is_hhmm (asc ''09:00'')"
    by (simp add: nine_literal is_hhmm_def is_digit_def)
  then show ?thesis
    by (simp add: calculateDuration_hhmm)
qed

lemma example_parseTimeEntry:
  "parseTimeEntry example_line
     (0, [0x30, 0x39, 0x3A, 0x30, 0x30, 0x7E, 0x30, 0x39, 0x3A, 0x30, 0x30],
      asc ''09:00'', asc ''09:00'') k = Some (example_entry (int k + 1))"
  unfolding parseTimeEntry_def prod.case example_rest Let_def example_bars option.case
    example_content example_duration
  by (simp add: example_entry_def calculateImmersionLevel_def)

lemma example_line_entries: "line_entries example_line k = [example_entry (int k + 1)]"
  unfolding line_entries_def parse_line_def Let_def example_trim example_no_marker
    example_TIME_HEADER option.case example_parseTimeEntry
  by (simp add: example_line_literal empty_log_def)

lemma example_parse: "entries (parseLogText example_line) = [example_entry 1]"
proof -
  have "split_on 0xA example_line = [example_line]"
    by (simp add: example_line_literal)
  then show ?thesis
    by (simp add: parseLogText_entries example_line_entries)
qed

lemma thought_line_entries: "line_entries (asc ''> idea'') k = []"
proof -
  have l: "asc ''> idea'' = [0x3E, 0x20, 0x69, 0x64, 0x65, 0x61]"
    by (simp add: asc_def)
  have "trim (asc ''> idea'') = asc ''> idea''"
    by (simp add: l trim_def is_space_def)
  moreover have "THOUGHT (asc ''> idea'') \<noteq> None"
    by (simp add: l THOUGHT_def marker_match_def is_space_def)
  ultimately show ?thesis
    by (auto simp: line_entries_def parse_line_def Let_def empty_log_def l)
qed

lemma example_log_lines: "split_on 0xA example_log = [asc ''> idea'', example_line]"
  by (simp add: example_log_def example_line_literal asc_def)

lemma example_log_parse: "entries (parseLogText example_log) = [example_entry 2]"
  by (simp add: parseLogText_entries example_log_lines example_line_entries thought_line_entries
      upt_rec_numeral)

theorem parseLogText_ids_witness:
  "entries (parseLogText example_log) = [example_entry 2]
   \<and> example_entry 2 \<in> set (entries (parseLogText example_log))
   \<and> (1::nat) < length (split_on 0xA example_log)
   \<and> example_entry 2 \<in> set (line_entries (split_on 0xA example_log ! 1) 1)
   \<and> entry_id (example_entry 2) = int 1 + 1
   \<and> 0 < entry_id (example_entry 2)"
proof -
  have m: "example_entry 2 \<in> set (entries (parseLogText example_log))"
    by (simp add: example_log_parse)
  have l: "example_entry 2 \<in> set (line_entries (split_on 0xA example_log ! 1) 1)"
    by (simp add: example_log_lines example_line_entries)
  from parseLogText_ids [of example_log] m
  have "0 < entry_id (example_entry 2)" by blast
  moreover from parseLogText_ids [of example_log] l
  have "entry_id (example_entry 2) = int 1 + 1" by blast
  ultimately show ?thesis
    using m l by (simp add: example_log_parse example_log_lines)
qed

text \<open>
  C9 as stated fails: the entry made from the first line, at the 0-based position 0
  and the 1-based position 1, has the id 1, not 1 + 1.
\<close>

theorem parseLogText_id_counterexample:
  "split_on 0xA example_line = [example_line]
   \<and> map entry_id (entries (parseLogText example_line)) = [1]
   \<and> map entry_id (entries (parseLogText example_line)) \<noteq> [1 + 1]"
proof -
  have "split_on 0xA example_line = [example_line]"
    by (simp add: example_line_literal)
  moreover have "map entry_id (entries (parseLogText example_line)) = [1]"
    by (simp add: example_parse example_entry_def)
  ultimately show ?thesis by simp
qed

section \<open>Properties of the categorizer\<close>

subsection \<open>Keyword rules\<close>

lemma split_on_first: "\<exists>ws. split_on sep s = takeWhile (\<lambda>c. c \<noteq> sep) s # ws"
proof (induction s)
  case Nil
  show ?case by simp
next
  case (Cons c cs)
  then obtain ws where "split_on sep cs = takeWhile (\<lambda>c. c \<noteq> sep) cs # ws" by blast
  then show ?case by simp
qed

lemma hour_is_start_hour:
  "(case split_on 0x3A startTime of h # _ \<Rightarrow> parseInt h | [] \<Rightarrow> None) = start_hour startTime"
proof -
  obtain ws where "split_on 0x3A startTime = takeWhile (\<lambda>c. c \<noteq> 0x3A) startTime # ws"
    using split_on_first by blast
  then show ?thesis by (simp add: start_hour_def)
qed

lemma getCategoryByKeyword_cascade:
  "getCategoryByKeyword c t =
     (if matches_any sleep_keywords (toLowerCase c) then RELAX_BED
      else if matches_any work_keywords (toLowerCase c) then WORK
      else if matches_any development_keywords (toLowerCase c) then DEVELOPMENT
      else if matches_any family_keywords (toLowerCase c) then FAMILY
      else if (case start_hour t of Some h \<Rightarrow> 0 \<le> h \<and> h < 7 | None \<Rightarrow> False) then RELAX_BED
      else ROUTINE)"
  unfolding getCategoryByKeyword_def Let_def hour_is_start_hour by simp

lemma first_match_cascade:
  "first_match_category c t =
     (if matches_any sleep_keywords (toLowerCase c) then RELAX_BED
      else if matches_any work_keywords (toLowerCase c) then WORK
      else if matches_any development_keywords (toLowerCase c) then DEVELOPMENT
      else if matches_any family_keywords (toLowerCase c) then FAMILY
      else if (case start_hour t of Some h \<Rightarrow> 0 \<le> h \<and> h < 7 | None \<Rightarrow> False) then RELAX_BED
      else ROUTINE)"
  by (simp add: first_match_category_def keyword_rules_def split: option.splits)

lemma getCategoryByKeyword_member: "getCategoryByKeyword c t \<in> set CATEGORY_ORDER"
  by (simp add: getCategoryByKeyword_cascade CATEGORY_ORDER_def)

text \<open>
  C8. \<open>getCategoryByKeyword\<close> is a total function of the content and the start time, and
  it decides as the table says: the first of the four keyword rules (resting, work,
  development, family) that matches the lower-cased content gives the category;
  when none matches, a start hour from 0 to 6 gives resting, and anything else routine.
  \<open>categorizeWithKeywords\<close> applies it to every entry.
\<close>

theorem getCategoryByKeyword_first_match:
  "getCategoryByKeyword c t = first_match_category c t
   \<and> (matches_any sleep_keywords (toLowerCase c) \<longrightarrow> getCategoryByKeyword c t = RELAX_BED)
   \<and> (\<not> matches_any sleep_keywords (toLowerCase c)
        \<and> matches_any work_keywords (toLowerCase c) \<longrightarrow> getCategoryByKeyword c t = WORK)
   \<and> (\<not> matches_any sleep_keywords (toLowerCase c)
        \<and> \<not> matches_any work_keywords (toLowerCase c)
        \<and> matches_any development_keywords (toLowerCase c) \<longrightarrow>
          getCategoryByKeyword c t = DEVELOPMENT)
   \<and> (\<not> matches_any sleep_keywords (toLowerCase c)
        \<and> \<not> matches_any work_keywords (toLowerCase c)
        \<and> \<not> matches_any development_keywords (toLowerCase c)
        \<and> matches_any family_keywords (toLowerCase c) \<longrightarrow> getCategoryByKeyword c t = FAMILY)
   \<and> (\<not> matches_any sleep_keywords (toLowerCase c)
        \<and> \<not> matches_any work_keywords (toLowerCase c)
        \<and> \<not> matches_any development_keywords (toLowerCase c)
        \<and> \<not> matches_any family_keywords (toLowerCase c) \<longrightarrow>
          getCategoryByKeyword c t =
            (case start_hour t of
               Some h \<Rightarrow> if 0 \<le> h \<and> h < 7 then RELAX_BED else ROUTINE
             | None \<Rightarrow> ROUTINE))
   \<and> categorizeWithKeywords es =
        map (\<lambda>e. e\<lparr>category := first_match_category (content e) (start e)\<rparr>) es"
proof -
  have eq: "getCategoryByKeyword c' t' = first_match_category c' t'" for c' t'
    by (simp only: getCategoryByKeyword_cascade first_match_cascade)
  then have "categorizeWithKeywords es =
        map (\<lambda>e. e\<lparr>category := first_match_category (content e) (start e)\<rparr>) es"
    by (simp add: categorizeWithKeywords_def)
  with eq [of c t] show ?thesis
    by (simp add: getCategoryByKeyword_cascade split: option.splits)
qed


lemma lower_nap: "toLowerCase (asc ''Nap, MEETING'') = asc ''nap, meeting''"
  by (simp add: toLowerCase_def asc_def)

lemma lower_lunch: "toLowerCase (asc ''Lunch'') = asc ''lunch''"
  by (simp add: toLowerCase_def asc_def)

lemma nap_matches:
  "matches_any sleep_keywords (asc ''nap, meeting'')"
  "matches_any work_keywords (asc ''nap, meeting'')"
  by (simp_all add: matches_any_def sleep_keywords_def work_keywords_def asc_def sublist_code(3))

lemma lunch_matches:
  "\<not> matches_any sleep_keywords (asc ''lunch'')"
  "\<not> matches_any work_keywords (asc ''lunch'')"
  "\<not> matches_any development_keywords (asc ''lunch'')"
  "\<not> matches_any family_keywords (asc ''lunch'')"
  by (simp_all add: matches_any_def sleep_keywords_def work_keywords_def
      development_keywords_def family_keywords_def asc_def sublist_code(3))

lemma radix_value_06: "radix_value 10 [0x30, 0x36] = Some 6"
  by (simp add: radix_value_def radix_digit_def Let_def)

lemma radix_value_07: "radix_value 10 [0x30, 0x37] = Some 7"
  by (simp add: radix_value_def radix_digit_def Let_def)

lemma start_hour_0630: "start_hour (asc ''06:30'') = Some 6"
  by (simp add: start_hour_def parseInt_def is_space_def asc_def radix_value_06)

lemma start_hour_0700: "start_hour (asc ''07:00'') = Some 7"
  by (simp add: start_hour_def parseInt_def is_space_def asc_def radix_value_07)

lemma lower_rules:
  "toLowerCase (asc ''Slide'') = asc ''slide''"
  "toLowerCase (asc ''Study'') = asc ''study''"
  "toLowerCase (asc ''Family'') = asc ''family''"
  by (simp_all add: toLowerCase_def asc_def)

lemma slide_matches:
  "\<not> matches_any sleep_keywords (asc ''slide'')"
  "matches_any work_keywords (asc ''slide'')"
  by (simp_all add: matches_any_def sleep_keywords_def work_keywords_def asc_def sublist_code(3))

lemma study_matches:
  "\<not> matches_any sleep_keywords (asc ''study'')"
  "\<not> matches_any work_keywords (asc ''study'')"
  "matches_any development_keywords (asc ''study'')"
  by (simp_all add: matches_any_def sleep_keywords_def work_keywords_def
      development_keywords_def asc_def sublist_code(3))

lemma family_matches:
  "\<not> matches_any sleep_keywords (asc ''family'')"
  "\<not> matches_any work_keywords (asc ''family'')"
  "\<not> matches_any development_keywords (asc ''family'')"
  "matches_any family_keywords (asc ''family'')"
  by (simp_all add: matches_any_def sleep_keywords_def work_keywords_def
      development_keywords_def family_keywords_def asc_def sublist_code(3))

theorem getCategoryByKeyword_first_match_witness:
  "matches_any sleep_keywords (toLowerCase (asc ''Nap, MEETING''))
   \<and> matches_any work_keywords (toLowerCase (asc ''Nap, MEETING''))
   \<and> getCategoryByKeyword (asc ''Nap, MEETING'') (asc ''07:00'') = RELAX_BED
   \<and> \<not> matches_any sleep_keywords (toLowerCase (asc ''Slide''))
   \<and> matches_any work_keywords (toLowerCase (asc ''Slide''))
   \<and> getCategoryByKeyword (asc ''Slide'') (asc ''06:30'') = WORK
   \<and> \<not> matches_any sleep_keywords (toLowerCase (asc ''Study''))
   \<and> \<not> matches_any work_keywords (toLowerCase (asc ''Study''))
   \<and> matches_any development_keywords (toLowerCase (asc ''Study''))
   \<and> getCategoryByKeyword (asc ''Study'') (asc ''06:30'') = DEVELOPMENT
   \<and> \<not> matches_any sleep_keywords (toLowerCase (asc ''Family''))
   \<and> \<not> matches_any work_keywords (toLowerCase (asc ''Family''))
   \<and> \<not> matches_any development_keywords (toLowerCase (asc ''Family''))
   \<and> matches_any family_keywords (toLowerCase (asc ''Family''))
   \<and> getCategoryByKeyword (asc ''Family'') (asc ''06:30'') = FAMILY
   \<and> \<not> matches_any sleep_keywords (toLowerCase (asc ''Lunch''))
   \<and> \<not> matches_any work_keywords (toLowerCase (asc ''Lunch''))
   \<and> \<not> matches_any development_keywords (toLowerCase (asc ''Lunch''))
   \<and> \<not> matches_any family_keywords (toLowerCase (asc ''Lunch''))
   \<and> getCategoryByKeyword (asc ''Lunch'') (asc ''06:30'') = RELAX_BED
   \<and> getCategoryByKeyword (asc ''Lunch'') (asc ''07:00'') = ROUTINE"
proof -
  note nap = nap_matches [folded lower_nap]
  note slide = slide_matches [folded lower_rules(1)]
  note study = study_matches [folded lower_rules(2)]
  note family = family_matches [folded lower_rules(3)]
  note lunch = lunch_matches [folded lower_lunch]
  from getCategoryByKeyword_first_match [of "asc ''Nap, MEETING''" "asc ''07:00''" "[]"] nap
  have a: "getCategoryByKeyword (asc ''Nap, MEETING'') (asc ''07:00'') = RELAX_BED"
    by blast
  from getCategoryByKeyword_first_match [of "asc ''Slide''" "asc ''06:30''" "[]"] slide
  have w: "getCategoryByKeyword (asc ''Slide'') (asc ''06:30'') = WORK"
    by blast
  from getCategoryByKeyword_first_match [of "asc ''Study''" "asc ''06:30''" "[]"] study
  have d: "getCategoryByKeyword (asc ''Study'') (asc ''06:30'') = DEVELOPMENT"
    by blast
  from getCategoryByKeyword_first_match [of "asc ''Family''" "asc ''06:30''" "[]"] family
  have f: "getCategoryByKeyword (asc ''Family'') (asc ''06:30'') = FAMILY"
    by blast
  from getCategoryByKeyword_first_match [of "asc ''Lunch''" "asc ''06:30''" "[]"] lunch
  have "getCategoryByKeyword (asc ''Lunch'') (asc ''06:30'') =
      (case start_hour (asc ''06:30'') of
         Some h \<Rightarrow> if 0 \<le> h \<and> h < 7 then RELAX_BED else ROUTINE
       | None \<Rightarrow> ROUTINE)"
    by blast
  then have b: "getCategoryByKeyword (asc ''Lunch'') (asc ''06:30'') = RELAX_BED"
    by (simp add: start_hour_0630)
  from getCategoryByKeyword_first_match [of "asc ''Lunch''" "asc ''07:00''" "[]"] lunch
  have "getCategoryByKeyword (asc ''Lunch'') (asc ''07:00'') =
      (case start_hour (asc ''07:00'') of
         Some h \<Rightarrow> if 0 \<le> h \<and> h < 7 then RELAX_BED else ROUTINE
       | None \<Rightarrow> ROUTINE)"
    by blast
  then have c: "getCategoryByKeyword (asc ''Lunch'') (asc ''07:00'') = ROUTINE"
    by (simp add: start_hour_0700)
  from a w d f b c nap slide study family lunch show ?thesis
    by blast
qed

subsection \<open>Remote categorization\<close>

lemma apply_categories_result:
  "length cs = length es \<Longrightarrow> map category (apply_categories es cs) = cs"
  by (induction es cs rule: apply_categories.induct) simp_all

lemma categorizeWithAI_invalid:
  assumes "\<And>cats. response = CategoryArray cats \<Longrightarrow> length cats \<noteq> length es"
  shows "\<exists>err. categorizeWithAI es response = (Some err, es)"
  using assms by (cases response) (simp_all add: categorizeWithAI_def)

lemma categorizeWithAI_error_unchanged:
  "fst (categorizeWithAI es response) \<noteq> None \<Longrightarrow> snd (categorizeWithAI es response) = es"
  by (cases response) (simp_all add: categorizeWithAI_def split: if_splits)

lemma categorizeWithAI_success:
  assumes "fst (categorizeWithAI es response) = None"
  shows "response = CategoryArray (map category (snd (categorizeWithAI es response)))"
  using assms
  by (cases response) (simp_all add: categorizeWithAI_def apply_categories_result split: if_splits)

text \<open>
  C7. When the response is not an array with exactly one element for each entry (the
  call or the parse failed, the value is not an array, or the length differs),
  \<open>categorizeWithAI\<close> throws and the entries, their categories included, are as before.
  The categories are assigned only when the response is an array of the right length.
\<close>

theorem categorizeWithAI_all_or_nothing:
  "((\<forall>cats. response = CategoryArray cats \<longrightarrow> length cats \<noteq> length es) \<longrightarrow>
       (\<exists>err. categorizeWithAI es response = (Some err, es)))
   \<and> (fst (categorizeWithAI es response) \<noteq> None \<longrightarrow> snd (categorizeWithAI es response) = es)
   \<and> (fst (categorizeWithAI es response) = None \<longleftrightarrow>
        (\<exists>cats. response = CategoryArray cats \<and> length cats = length es))"
proof -
  have "fst (categorizeWithAI es response) = None \<longleftrightarrow>
        (\<exists>cats. response = CategoryArray cats \<and> length cats = length es)"
    by (cases response) (simp_all add: categorizeWithAI_def)
  then show ?thesis
    using categorizeWithAI_invalid [of response es] categorizeWithAI_error_unchanged [of es response]
    by blast
qed

theorem categorizeWithAI_all_or_nothing_witness:
  "length [WORK] \<noteq> length [example_work, example_lunch]
   \<and> categorizeWithAI [example_work, example_lunch] (CategoryArray [WORK]) =
       (Some InvalidCategorization, [example_work, example_lunch])
   \<and> fst (categorizeWithAI [example_work, example_lunch] ParseFailure) \<noteq> None
   \<and> snd (categorizeWithAI [example_work, example_lunch] ParseFailure) =
       [example_work, example_lunch]"
proof -
  have h: "\<forall>cats. CategoryArray [WORK] = CategoryArray cats \<longrightarrow>
       length cats \<noteq> length [example_work, example_lunch]"
    by simp
  with categorizeWithAI_all_or_nothing [of "CategoryArray [WORK]" "[example_work, example_lunch]"]
  obtain err where
    "categorizeWithAI [example_work, example_lunch] (CategoryArray [WORK]) =
       (Some err, [example_work, example_lunch])"
    by blast
  moreover have "fst (categorizeWithAI [example_work, example_lunch] (CategoryArray [WORK]))
      = Some InvalidCategorization"
    by (simp add: categorizeWithAI_def)
  ultimately have a: "categorizeWithAI [example_work, example_lunch] (CategoryArray [WORK]) =
       (Some InvalidCategorization, [example_work, example_lunch])"
    by simp
  have b: "fst (categorizeWithAI [example_work, example_lunch] ParseFailure) \<noteq> None"
    by (simp add: categorizeWithAI_def)
  with categorizeWithAI_all_or_nothing [of ParseFailure "[example_work, example_lunch]"]
  have "snd (categorizeWithAI [example_work, example_lunch] ParseFailure) =
       [example_work, example_lunch]"
    by blast
  with a b show ?thesis by simp
qed

subsection \<open>Membership of the category set\<close>

lemma example_entry_keywords: "categorizeWithKeywords [example_entry 1] = [example_entry 1]"
proof -
  have l: "toLowerCase (asc ''x'') = [0x78]"
    by (simp add: toLowerCase_def asc_def)
  have m: "\<not> matches_any sleep_keywords [0x78]" "\<not> matches_any work_keywords [0x78]"
    "\<not> matches_any development_keywords [0x78]" "\<not> matches_any family_keywords [0x78]"
    by (simp_all add: matches_any_def sleep_keywords_def work_keywords_def
      development_keywords_def family_keywords_def asc_def sublist_code(3))
  have "radix_value 10 [0x30, 0x39] = Some 9"
    by (simp add: radix_value_def radix_digit_def Let_def)
  then have h: "start_hour (asc ''09:00'') = Some 9"
    by (simp add: start_hour_def parseInt_def is_space_def asc_def)
  have "getCategoryByKeyword (asc ''x'') (asc ''09:00'') = ROUTINE"
    by (simp add: getCategoryByKeyword_cascade l m h)
  then show ?thesis
    by (simp add: categorizeWithKeywords_def example_entry_def)
qed

lemma parseLogText_category:
  assumes "e \<in> set (entries (parseLogText rawText))"
  shows "category e = ROUTINE"
proof -
  from parseLogText_entry_line [OF assms]
  obtain i where "e \<in> set (line_entries (split_on 0xA rawText ! i) i)" by blast
  then show ?thesis
    using line_entries_cases [of "split_on 0xA rawText ! i" i] by auto
qed

lemma addSleepPeriodIfMissing_members:
  assumes "addSleepPeriodIfMissing es = Some r" "e \<in> set r"
  shows "e \<in> set es \<or> category e = RELAX_BED"
proof (cases "es = []")
  case True
  with assms show ?thesis by (simp add: addSleepPeriodIfMissing_def)
next
  case False
  have sub: "set (sort_key start es) = set es" by simp
  show ?thesis
  proof (cases "sort_key start es")
    case Nil
    with assms False show ?thesis by (simp add: addSleepPeriodIfMissing_def)
  next
    case (Cons first others)
    with sub have s: "set (first # others) = set es" by simp
    from assms(1) False Cons
    have "r = first # others \<or> (\<exists>x. category x = RELAX_BED \<and> r = x # first # others)"
      by (auto simp: addSleepPeriodIfMissing_def split: if_splits option.splits)
    with assms(2) have "e \<in> set (first # others) \<or> category e = RELAX_BED"
      by auto
    with s show ?thesis by blast
  qed
qed

lemma category_members:
  "ROUTINE \<in> set CATEGORY_ORDER" "RELAX_BED \<in> set CATEGORY_ORDER"
  by (simp_all add: CATEGORY_ORDER_def)

text \<open>
  C1 (as amended). After parsing every entry has the routine category; after
  \<open>categorizeWithKeywords\<close> every category is one of the six labels; gap filling keeps
  the entries it is given and adds at most an entry of the resting category, so it keeps
  the categories within the six labels. \<open>categorizeWithAI\<close> leaves the entries unchanged when
  it fails; when it succeeds, the categories are the strings of the response, in order,
  whatever they are.
\<close>

theorem category_membership:
  "(\<forall>e\<in>set (entries (parseLogText rawText)).
       category e = ROUTINE \<and> category e \<in> set CATEGORY_ORDER)
   \<and> (\<forall>e\<in>set (categorizeWithKeywords es). category e \<in> set CATEGORY_ORDER)
   \<and> (\<forall>r. addSleepPeriodIfMissing es = Some r
            \<and> (\<forall>e\<in>set es. category e \<in> set CATEGORY_ORDER)
          \<longrightarrow> (\<forall>e\<in>set r. category e \<in> set CATEGORY_ORDER))
   \<and> (fst (categorizeWithAI es response) \<noteq> None \<longrightarrow> snd (categorizeWithAI es response) = es)
   \<and> (fst (categorizeWithAI es response) = None \<longrightarrow>
         response = CategoryArray (map category (snd (categorizeWithAI es response))))"
proof -
  have "\<forall>e\<in>set (entries (parseLogText rawText)).
       category e = ROUTINE \<and> category e \<in> set CATEGORY_ORDER"
    using parseLogText_category category_members(1) by auto
  moreover have "\<forall>e\<in>set (categorizeWithKeywords es). category e \<in> set CATEGORY_ORDER"
    using getCategoryByKeyword_member by (auto simp: categorizeWithKeywords_def)
  moreover have "\<forall>r. addSleepPeriodIfMissing es = Some r
            \<and> (\<forall>e\<in>set es. category e \<in> set CATEGORY_ORDER)
          \<longrightarrow> (\<forall>e\<in>set r. category e \<in> set CATEGORY_ORDER)"
    using addSleepPeriodIfMissing_members category_members(2) by metis
  ultimately show ?thesis
    using categorizeWithAI_error_unchanged [of es response]
      categorizeWithAI_success [of es response]
    by blast
qed

lemma gym_literal: "asc ''gym'' = [0x67, 0x79, 0x6D]"
  by (simp add: asc_def)

lemma gym_not_member: "asc ''gym'' \<notin> set CATEGORY_ORDER"
  by (simp add: gym_literal CATEGORY_ORDER_def WORK_def DEVELOPMENT_def ROUTINE_def FAMILY_def
      SOCIAL_def RELAX_BED_def)

lemma example_categories:
  "category example_lunch \<in> set CATEGORY_ORDER" "category example_work \<in> set CATEGORY_ORDER"
  by (simp_all add: example_lunch_def example_work_def CATEGORY_ORDER_def)

theorem category_membership_witness:
  "example_entry 1 \<in> set (entries (parseLogText example_line))
   \<and> category (example_entry 1) = ROUTINE
   \<and> example_entry 1 \<in> set (categorizeWithKeywords [example_entry 1])
   \<and> category (example_entry 1) \<in> set CATEGORY_ORDER
   \<and> addSleepPeriodIfMissing [example_lunch, example_work] =
       Some [example_gap, example_work, example_lunch]
   \<and> category example_lunch \<in> set CATEGORY_ORDER
   \<and> category example_work \<in> set CATEGORY_ORDER
   \<and> category example_gap \<in> set CATEGORY_ORDER
   \<and> fst (categorizeWithAI [example_lunch] (CategoryArray [asc ''gym''])) = None
   \<and> map category (snd (categorizeWithAI [example_lunch] (CategoryArray [asc ''gym'']))) =
       [asc ''gym'']
   \<and> fst (categorizeWithAI [example_lunch] NotAnArray) \<noteq> None
   \<and> snd (categorizeWithAI [example_lunch] NotAnArray) = [example_lunch]"
proof -
  have a: "example_entry 1 \<in> set (entries (parseLogText example_line))"
    by (simp add: example_parse)
  with category_membership [of example_line "[]" NotAnArray]
  have b: "category (example_entry 1) = ROUTINE" by blast
  have k: "example_entry 1 \<in> set (categorizeWithKeywords [example_entry 1])"
    by (simp add: example_entry_keywords)
  with category_membership [of example_line "[example_entry 1]" NotAnArray]
  have k': "category (example_entry 1) \<in> set CATEGORY_ORDER" by blast
  have "\<forall>e\<in>set [example_lunch, example_work]. category e \<in> set CATEGORY_ORDER"
    by (simp add: example_categories)
  with category_membership [of example_line "[example_lunch, example_work]" NotAnArray]
    example_gap_fill
  have "\<forall>e\<in>set [example_gap, example_work, example_lunch]. category e \<in> set CATEGORY_ORDER"
    by blast
  then have g: "category example_gap \<in> set CATEGORY_ORDER" by simp
  have c: "fst (categorizeWithAI [example_lunch] (CategoryArray [asc ''gym''])) = None"
    by (simp add: categorizeWithAI_def)
  with category_membership [of example_line "[example_lunch]" "CategoryArray [asc ''gym'']"]
  have "CategoryArray [asc ''gym''] =
      CategoryArray (map category (snd (categorizeWithAI [example_lunch] (CategoryArray [asc ''gym'']))))"
    by blast
  then have d: "map category (snd (categorizeWithAI [example_lunch] (CategoryArray [asc ''gym'']))) =
       [asc ''gym'']"
    by simp
  have e: "fst (categorizeWithAI [example_lunch] NotAnArray) \<noteq> None"
    by (simp add: categorizeWithAI_def)
  with category_membership [of example_line "[example_lunch]" NotAnArray]
  have "snd (categorizeWithAI [example_lunch] NotAnArray) = [example_lunch]"
    by blast
  with a b k k' g c d e example_gap_fill example_categories show ?thesis by blast
qed

text \<open>
  C1 as stated fails after a successful remote categorization: a response array of the
  right length with a string outside the six labels is applied as it is.
\<close>

theorem categorizeWithAI_free_text_counterexample:
  "categorizeWithAI [example_lunch] (CategoryArray [asc ''gym'']) =
     (None, [example_lunch\<lparr>category := asc ''gym''\<rparr>])
   \<and> category (example_lunch\<lparr>category := asc ''gym''\<rparr>) \<notin> set CATEGORY_ORDER"
  by (simp add: categorizeWithAI_def gym_not_member)

subsection \<open>Immersion by category\<close>

lemma stats_step_keys:
  "set (map fst (stats_step cs e)) =
     (if category e = RELAX_BED \<or> immersion e = 0 then set (map fst cs)
      else insert (category e) (set (map fst cs)))"
proof -
  have "map fst (stats_step cs e) =
      (if category e = RELAX_BED \<or> immersion e = 0 then map fst cs
       else if map_of cs (category e) = None then map fst cs @ [category e]
       else map fst cs)"
    by (auto simp: stats_step_def Let_def split: prod.splits)
  then show ?thesis
    by (auto simp: map_of_eq_None_iff)
qed

lemma stats_fold_keys:
  "set (map fst (foldl stats_step cs es)) =
     set (map fst cs) \<union> {category e | e. e \<in> set es \<and> category e \<noteq> RELAX_BED \<and> immersion e \<noteq> 0}"
proof (induction es arbitrary: cs)
  case Nil
  show ?case by simp
next
  case (Cons e es)
  show ?case
    unfolding foldl_Cons Cons.IH stats_step_keys by auto
qed

lemma set_insert_sorted: "set (insert_sorted a bs) = insert a (set bs)"
  by (induction bs) auto

lemma set_sort_analysis: "set (sort_analysis xs) = set xs"
  by (induction xs) (simp_all add: sort_analysis_def set_insert_sorted)

text \<open>The part of C4 that holds: no record is for the resting category.\<close>

lemma analyzeImmersionByCategory_no_resting:
  "r \<in> set (analyzeImmersionByCategory es) \<Longrightarrow> stat_category r \<noteq> RELAX_BED"
proof -
  assume "r \<in> set (analyzeImmersionByCategory es)"
  then obtain c ti tt where "(c, (ti, tt)) \<in> set (foldl stats_step [] es)" "stat_category r = c"
    by (auto simp: analyzeImmersionByCategory_def Let_def set_sort_analysis)
  then have "stat_category r \<in> set (map fst (foldl stats_step [] es))"
    by force
  then show ?thesis
    unfolding stats_fold_keys by auto
qed

text \<open>
  C4 fails on the source for a category whose qualifying entries have durations that
  sum to 0: the line \<open>09:00~09:00 x|\<close> is parsed to one entry of immersion 1 and duration
  0, the keyword rules leave it in the routine category, and the analysis has a record
  for that category whose average is \<open>0 / 0\<close>, that is \<open>NaN\<close>.
\<close>

theorem analyzeImmersionByCategory_zero_duration:
  "entries (parseLogText example_line) = [example_entry 1]
   \<and> categorizeWithKeywords [example_entry 1] = [example_entry 1]
   \<and> analyzeImmersionByCategory [example_entry 1] =
       [\<lparr> stat_category = ROUTINE, averageImmersion = StrNaN, totalTime = 0 \<rparr>]"
proof -
  have ne: "ROUTINE \<noteq> RELAX_BED"
    by (simp add: ROUTINE_def RELAX_BED_def)
  then have "foldl stats_step [] [example_entry 1] = [(ROUTINE, (0, 0))]"
    by (simp add: stats_step_def example_entry_def)
  then have "analyzeImmersionByCategory [example_entry 1] =
       [\<lparr> stat_category = ROUTINE, averageImmersion = StrNaN, totalTime = 0 \<rparr>]"
    by (simp add: analyzeImmersionByCategory_def sort_analysis_def js_divide_def toFixed1_def)
  with example_parse example_entry_keywords show ?thesis by simp
qed

end
